theory Spec2Isabelle
  imports Main "HOL-Library.Word" "HOL-Library.Sublist" "HOL-Library.Extended_Nat"
begin

unbundle bit_operations_syntax

text \<open>
  A shallow embedding of the text-to-speech client: \<open>connect.ts\<close>, which opens the
  WebSocket and sends the configuration message, and \<open>generate.ts\<close>, whose listeners
  collect binary audio frames and metadata frames until the termination frame and settle
  one promise. The listeners are functions on the state they close over; an event of the
  socket or of a timer, and the completion of an awaited read, is a step on that state.
  The platform functions the code calls (string methods, \<open>TextDecoder\<close>, the regular
  expression, Numbers, promises, the socket) are modelled first; \<open>JSON.parse\<close> and
  \<open>parseSubtitle\<close> are parameters.
\<close>

section \<open>Platform values: bytes, strings, Numbers, promises, sockets\<close>

text \<open>
  A \<open>Uint8Array\<close> is a list of bytes. A JavaScript string is a sequence of UTF-16 code
  units. Property names and the source's ASCII literals are written as HOL strings and
  turned into code units by \<open>js\<close>.
\<close>

type_synonym byte = "8 word"
type_synonym jschar = "16 word"
type_synonym jsstring = "16 word list"

definition js :: "string \<Rightarrow> jsstring" where
  "js s = map of_char s"

definition CRLF :: string where
  "CRLF = [CHR 0x0D, CHR 0x0A]"

definition LF :: string where
  "LF = [CHR 0x0A]"

text \<open>
  \<open>String.prototype.indexOf\<close>: the least index at which the needle starts, \<open>None\<close>
  for the result -1.
\<close>

fun indexOf :: "'a list \<Rightarrow> 'a list \<Rightarrow> nat option" where
  "indexOf [] needle = (if needle = [] then Some 0 else None)"
| "indexOf (c # cs) needle =
     (if prefix needle (c # cs) then Some 0 else map_option Suc (indexOf cs needle))"

definition str_includes :: "'a list \<Rightarrow> 'a list \<Rightarrow> bool" where
  "str_includes s needle = (indexOf s needle \<noteq> None)"

text \<open>
  \<open>String.prototype.split\<close> with a non-empty separator: the pieces between successive
  non-overlapping occurrences, scanned left to right. \<open>skip\<close> counts the code units of
  a separator occurrence still to be passed over, \<open>cur\<close> is the current piece, reversed.
\<close>

fun split_from :: "'a list \<Rightarrow> nat \<Rightarrow> 'a list \<Rightarrow> 'a list \<Rightarrow> 'a list list" where
  "split_from sep skip cur [] = [rev cur]"
| "split_from sep skip cur (c # cs) =
     (if 0 < skip then split_from sep (skip - 1) cur cs
      else if prefix sep (c # cs) then rev cur # split_from sep (length sep - 1) [] cs
      else split_from sep 0 (c # cur) cs)"

definition split :: "'a list \<Rightarrow> 'a list \<Rightarrow> 'a list list" where
  "split s sep = split_from sep 0 [] s"

text \<open>
  \<open>String.prototype.trim\<close> removes the ECMAScript WhiteSpace and LineTerminator code
  units from both ends.
\<close>

definition isWhiteSpace :: "jschar \<Rightarrow> bool" where
  "isWhiteSpace c \<longleftrightarrow>
     c = 0x09 \<or> c = 0x0A \<or> c = 0x0B \<or> c = 0x0C \<or> c = 0x0D \<or> c = 0x20 \<or> c = 0xA0 \<or>
     c = 0x1680 \<or> (0x2000 \<le> c \<and> c \<le> 0x200A) \<or> c = 0x2028 \<or> c = 0x2029 \<or>
     c = 0x202F \<or> c = 0x205F \<or> c = 0x3000 \<or> c = 0xFEFF"

definition trim :: "jsstring \<Rightarrow> jsstring" where
  "trim s = rev (dropWhile isWhiteSpace (rev (dropWhile isWhiteSpace s)))"

text \<open>
  A Number is an IEEE 754 double. The Numbers of this program are never negative and,
  when finite, integers, so a Number is an \<open>enat\<close>, with \<open>\<infinity>\<close> for \<open>Infinity\<close>.
  \<open>roundNumber n\<close> is the Number value for the integer \<open>n\<close>: \<open>n\<close> itself below
  \<open>2 ^ 53\<close>; otherwise the nearest integer whose significand has 53 bits, the even
  significand on a tie, and \<open>Infinity\<close> when that is \<open>2 ^ 1024\<close>. The sum of two Numbers
  is the Number value for the exact sum.
\<close>

type_synonym number = enat

fun bitLength :: "nat \<Rightarrow> nat" where
  "bitLength n = (if n = 0 then 0 else Suc (bitLength (n div 2)))"

declare bitLength.simps [simp del]

definition roundNumber :: "nat \<Rightarrow> number" where
  "roundNumber n =
     (if n < 2 ^ 53 then enat n
      else (let e = bitLength n - 53;
                q = n div 2 ^ e;
                r = n mod 2 ^ e;
                m = (if 2 ^ e < 2 * r \<or> (2 * r = 2 ^ e \<and> odd q) then q + 1 else q)
            in if 2 ^ 1024 \<le> m * 2 ^ e then \<infinity> else enat (m * 2 ^ e)))"

definition number_add :: "number \<Rightarrow> number \<Rightarrow> number" where
  "number_add a b =
     (case a of
        \<infinity> \<Rightarrow> \<infinity>
      | enat x \<Rightarrow> (case b of \<infinity> \<Rightarrow> \<infinity> | enat y \<Rightarrow> roundNumber (x + y)))"

text \<open>
  A promise made by \<open>Promise.withResolvers\<close>: \<open>resolve\<close> and \<open>reject\<close> settle a
  pending promise and do nothing to a settled one.
\<close>

datatype ('a, 'e) promise = Pending | Fulfilled 'a | Rejected 'e

definition resolve :: "'a \<Rightarrow> ('a, 'e) promise \<Rightarrow> ('a, 'e) promise" where
  "resolve v p = (case p of Pending \<Rightarrow> Fulfilled v | _ \<Rightarrow> p)"

definition reject :: "'e \<Rightarrow> ('a, 'e) promise \<Rightarrow> ('a, 'e) promise" where
  "reject e p = (case p of Pending \<Rightarrow> Rejected e | _ \<Rightarrow> p)"

text \<open>
  A \<open>WebSocket\<close>: the endpoint, the ready state and the messages handed to \<open>send\<close>.
  \<open>close()\<close> starts the closing handshake unless the socket is closing or closed already;
  \<open>send\<close> transmits on an open socket.
\<close>

datatype readyState = CONNECTING | OPEN | CLOSING | CLOSED

record WebSocket =
  wsUrl :: string
  wsState :: readyState
  wsSent :: "jsstring list"

definition ws_close :: "WebSocket \<Rightarrow> WebSocket" where
  "ws_close ws =
     (if wsState ws = CLOSING \<or> wsState ws = CLOSED then ws else ws\<lparr>wsState := CLOSING\<rparr>)"

definition ws_send :: "jsstring \<Rightarrow> WebSocket \<Rightarrow> WebSocket" where
  "ws_send msg ws = (if wsState ws = OPEN then ws\<lparr>wsSent := wsSent ws @ [msg]\<rparr> else ws)"

text \<open>
  The errors of the two source files. Each \<open>new Error(message)\<close> is a constructor that
  carries the values interpolated into its message; \<open>Thrown\<close> is an exception raised by
  \<open>JSON.parse\<close> or by \<open>parseSubtitle\<close>, \<open>ErrorEvent\<close> the event object that the
  socket's error listener passes to \<open>reject\<close>.
\<close>

datatype 'x error =
    OutputFormatRequired
  | ConnectTimeout
  | GenerateTimeout
  | ClosedUnexpectedly nat jsstring
  | IncompleteAudio number number
  | TypeError
  | Thrown 'x
  | ErrorEvent 'x

section \<open>TextDecoder\<close>

text \<open>
  \<open>new TextDecoder().decode(bytes)\<close> is the UTF-8 decoder of the Encoding Standard with
  error mode replacement: every maximal ill-formed subsequence becomes U+FFFD, a byte that
  breaks a sequence is processed again as the start of the next one, and a leading U+FEFF
  is dropped. The decoded code points are then written as UTF-16 code units.
\<close>

record utf8_state =
  codePoint :: nat
  bytesNeeded :: nat
  bytesSeen :: nat
  lowerBoundary :: byte
  upperBoundary :: byte

definition utf8_init :: utf8_state where
  "utf8_init = \<lparr>codePoint = 0, bytesNeeded = 0, bytesSeen = 0,
                 lowerBoundary = 0x80, upperBoundary = 0xBF\<rparr>"

text \<open>The decoder's handler on a byte when no continuation byte is awaited.\<close>

definition utf8_lead :: "byte \<Rightarrow> nat list \<times> utf8_state" where
  "utf8_lead b =
     (if b \<le> 0x7F then ([unat b], utf8_init)
      else if 0xC2 \<le> b \<and> b \<le> 0xDF then
        ([], utf8_init\<lparr>codePoint := unat (b AND 0x1F), bytesNeeded := 1\<rparr>)
      else if 0xE0 \<le> b \<and> b \<le> 0xEF then
        ([], utf8_init\<lparr>codePoint := unat (b AND 0x0F), bytesNeeded := 2,
                        lowerBoundary := (if b = 0xE0 then 0xA0 else 0x80),
                        upperBoundary := (if b = 0xED then 0x9F else 0xBF)\<rparr>)
      else if 0xF0 \<le> b \<and> b \<le> 0xF4 then
        ([], utf8_init\<lparr>codePoint := unat (b AND 0x07), bytesNeeded := 3,
                        lowerBoundary := (if b = 0xF0 then 0x90 else 0x80),
                        upperBoundary := (if b = 0xF4 then 0x8F else 0xBF)\<rparr>)
      else ([0xFFFD], utf8_init))"

fun utf8_decode_from :: "utf8_state \<Rightarrow> byte list \<Rightarrow> nat list" where
  "utf8_decode_from st [] = (if bytesNeeded st \<noteq> 0 then [0xFFFD] else [])"
| "utf8_decode_from st (b # bs) =
     (if bytesNeeded st = 0 then
        fst (utf8_lead b) @ utf8_decode_from (snd (utf8_lead b)) bs
      else if b < lowerBoundary st \<or> upperBoundary st < b then
        0xFFFD # fst (utf8_lead b) @ utf8_decode_from (snd (utf8_lead b)) bs
      else if bytesSeen st + 1 \<noteq> bytesNeeded st then
        utf8_decode_from
          (st\<lparr>codePoint := codePoint st * 64 + unat (b AND 0x3F),
              bytesSeen := bytesSeen st + 1,
              lowerBoundary := 0x80, upperBoundary := 0xBF\<rparr>) bs
      else (codePoint st * 64 + unat (b AND 0x3F)) # utf8_decode_from utf8_init bs)"

definition strip_bom :: "nat list \<Rightarrow> nat list" where
  "strip_bom cps = (case cps of [] \<Rightarrow> [] | c # rest \<Rightarrow> if c = 0xFEFF then rest else cps)"

definition utf16_units :: "nat \<Rightarrow> jsstring" where
  "utf16_units cp =
     (if cp \<le> 0xFFFF then [of_nat cp]
      else [of_nat (0xD800 + (cp - 0x10000) div 1024),
            of_nat (0xDC00 + (cp - 0x10000) mod 1024)])"

definition TextDecoder_decode :: "byte list \<Rightarrow> jsstring" where
  "TextDecoder_decode bytes =
     concat (map utf16_units (strip_bom (utf8_decode_from utf8_init bytes)))"

section \<open>The Content-Length pattern\<close>

text \<open>
  \<open>/Content-Length: (\d+)/i.exec(headerText)\<close>: the leftmost position at which the
  sixteen code units of the key match without regard to case and at least one digit
  follows; the capture group is the longest run of digits there. Without the \<open>u\<close> flag a
  code unit outside ASCII never matches an ASCII pattern character, so comparing after
  upper-casing the ASCII letters decides the match.
\<close>

definition isDigit :: "jschar \<Rightarrow> bool" where
  "isDigit c \<longleftrightarrow> 0x30 \<le> c \<and> c \<le> 0x39"

definition canonicalize :: "jschar \<Rightarrow> jschar" where
  "canonicalize c = (if 0x61 \<le> c \<and> c \<le> 0x7A then c - 0x20 else c)"

definition contentLengthAt :: "jsstring \<Rightarrow> jsstring option" where
  "contentLengthAt s =
     (if map canonicalize (take 16 s) = map canonicalize (js ''Content-Length: '')
         \<and> takeWhile isDigit (drop 16 s) \<noteq> []
      then Some (takeWhile isDigit (drop 16 s)) else None)"

fun contentLengthExec :: "jsstring \<Rightarrow> jsstring option" where
  "contentLengthExec [] = None"
| "contentLengthExec (c # cs) =
     (case contentLengthAt (c # cs) of
        Some digits \<Rightarrow> Some digits
      | None \<Rightarrow> contentLengthExec cs)"

text \<open>
  \<open>parseInt(digits, 10)\<close> on a string of decimal digits: the Number value for the integer
  that the digits denote. (Past twenty significant digits the language lets an
  implementation read the later digits as zeros; this is the implementation that does
  not.)
\<close>

definition digitsValue :: "jsstring \<Rightarrow> nat" where
  "digitsValue digits = foldl (\<lambda>acc d. 10 * acc + (unat d - 48)) 0 digits"

definition parseInt :: "jsstring \<Rightarrow> number" where
  "parseInt digits = roundNumber (digitsValue digits)"

section \<open>connect.ts\<close>

definition url :: string where
  "url = ''wss://speech.platform.bing.com/consumer/speech/synthesize/readaloud/edge/v1''
         @ ''?TrustedClientToken=6A5AA1D4EAFF4E9FB37E23D68491D6F4''"

definition initialMessage :: "jsstring \<Rightarrow> jsstring" where
  \<open>initialMessage outputFormat =
     js (LF @ ''  Content-Type:application/json; charset=utf-8'' @ CRLF
         @ ''Path:speech.config'' @ CRLF @ CRLF @ LF @ LF
         @ ''  {'' @ LF
         @ ''    "context": {'' @ LF
         @ ''      "synthesis": {'' @ LF
         @ ''        "audio": {'' @ LF
         @ ''          "metadataoptions": {'' @ LF
         @ ''            "sentenceBoundaryEnabled": "false",'' @ LF
         @ ''            "wordBoundaryEnabled": "true"'' @ LF
         @ ''          },'' @ LF
         @ ''          "outputFormat": "'')
     @ outputFormat
     @ js (''"'' @ LF
         @ ''        }'' @ LF
         @ ''      }'' @ LF
         @ ''    }'' @ LF
         @ ''  }'' @ LF)\<close>

text \<open>
  The state that \<open>connect\<close> leaves behind when it returns its promise: the socket it
  created, the configuration message its open listener will send, whether its ten-second
  timer is still armed, and the promise.
\<close>

record 'x Connect =
  ws :: WebSocket
  configMessage :: jsstring
  connTimeout :: bool
  connPromise :: "(WebSocket, 'x error) promise"

text \<open>
  The argument is \<open>None\<close> for an absent (undefined or null) output format. Only the
  empty string and an absent value are falsy. The exception is thrown before the socket is
  constructed, so a failing call has no state at all.
\<close>

definition connect :: "jsstring option \<Rightarrow> 'x error + 'x Connect" where
  "connect outputFormat =
     (case outputFormat of
        None \<Rightarrow> Inl OutputFormatRequired
      | Some fmt \<Rightarrow>
          if fmt = [] then Inl OutputFormatRequired
          else Inr \<lparr>ws = \<lparr>wsUrl = url, wsState = CONNECTING, wsSent = []\<rparr>,
                    configMessage = initialMessage fmt,
                    connTimeout = True,
                    connPromise = Pending\<rparr>)"

datatype 'x connect_event = ConnOpen | ConnError 'x | ConnTimeout

text \<open>
  One event of the connecting socket, with the listener that \<open>connect\<close> registered for
  it. The open event finds the socket open; the timer fires only while it is armed.
\<close>

definition connect_step :: "'x connect_event \<Rightarrow> 'x Connect \<Rightarrow> 'x Connect" where
  "connect_step ev c =
     (case ev of
        ConnOpen \<Rightarrow>
          (let opened = (if wsState (ws c) = CONNECTING then (ws c)\<lparr>wsState := OPEN\<rparr> else ws c);
               sock = ws_send (configMessage c) opened
           in c\<lparr>connTimeout := False, ws := sock, connPromise := resolve sock (connPromise c)\<rparr>)
      | ConnError e \<Rightarrow>
          c\<lparr>connTimeout := False, connPromise := reject (ErrorEvent e) (connPromise c)\<rparr>
      | ConnTimeout \<Rightarrow>
          (if connTimeout c
           then c\<lparr>connTimeout := False, ws := ws_close (ws c),
                  connPromise := reject ConnectTimeout (connPromise c)\<rparr>
           else c))"

fun connect_run :: "'x connect_event list \<Rightarrow> 'x Connect \<Rightarrow> 'x Connect" where
  "connect_run [] c = c"
| "connect_run (ev # evs) c = connect_run evs (connect_step ev c)"

section \<open>generate.ts\<close>

subsection \<open>Options and defaults\<close>

text \<open>
  An optional property is \<open>None\<close> when it is null or undefined. The subtitle options are
  an object, a finite map from property names to values.
\<close>

datatype jsval = JString jsstring | JNumber nat | JUndefined | JNull

record GenerateOptions =
  "text" :: jsstring
  voice :: "jsstring option"
  language :: "jsstring option"
  outputFormat :: "jsstring option"
  rate :: "jsstring option"
  pitch :: "jsstring option"
  volume :: "jsstring option"
  subtitle :: "(string \<rightharpoonup> jsval) option"

text \<open>\<open>a ?? b\<close>\<close>

definition nullish :: "'a option \<Rightarrow> 'a \<Rightarrow> 'a" where
  "nullish a b = (case a of None \<Rightarrow> b | Some v \<Rightarrow> v)"

text \<open>\<open>{ ...a, ...b }\<close> where \<open>b\<close> may be null or undefined\<close>

definition spread :: "(string \<rightharpoonup> jsval) \<Rightarrow> (string \<rightharpoonup> jsval) option \<Rightarrow> (string \<rightharpoonup> jsval)" where
  "spread a b = (case b of None \<Rightarrow> a | Some m \<Rightarrow> a ++ m)"

text \<open>The constants that \<open>generate\<close> computes from its options, lines 91 to 103.\<close>

record Settings =
  voice' :: jsstring
  language' :: jsstring
  outputFormat' :: jsstring
  rate' :: jsstring
  pitch' :: jsstring
  volume' :: jsstring
  subtitle' :: "string \<rightharpoonup> jsval"

definition settings :: "GenerateOptions \<Rightarrow> Settings" where
  "settings options =
     \<lparr>voice' = nullish (voice options) (js ''en-US-AvaNeural''),
      language' = nullish (language options) (js ''en-US''),
      outputFormat' = nullish (outputFormat options) (js ''audio-24khz-96kbitrate-mono-mp3''),
      rate' = nullish (rate options) (js ''default''),
      pitch' = nullish (pitch options) (js ''default''),
      volume' = nullish (volume options) (js ''default''),
      subtitle' = spread [''splitBy'' \<mapsto> JString (js ''sentence''), ''count'' \<mapsto> JNumber 1]
                         (subtitle options)\<rparr>"

definition requestString ::
  "jsstring \<Rightarrow> jsstring \<Rightarrow> jsstring \<Rightarrow> jsstring \<Rightarrow> jsstring \<Rightarrow> jsstring \<Rightarrow> jsstring \<Rightarrow> jsstring" where
  \<open>requestString requestId lang name r p v txt =
     js (LF @ ''  X-RequestId:'') @ requestId @ js (CRLF @ LF
         @ ''  Content-Type:application/ssml+xml'' @ CRLF @ LF
         @ ''  Path:ssml'' @ CRLF @ CRLF @ LF @ LF
         @ ''  <speak version="1.0" xmlns="http://www.w3.org/2001/10/synthesis"''
         @ '' xmlns:mstts="https://www.w3.org/2001/mstts" xml:lang="'')
     @ lang @ js (''">'' @ LF @ ''    <voice name="'')
     @ name @ js (''">'' @ LF @ ''      <prosody rate="'')
     @ r @ js (''" pitch="'')
     @ p @ js (''" volume="'')
     @ v @ js (''">'' @ LF @ ''        '')
     @ txt @ js (LF @ ''      </prosody>'' @ LF @ ''    </voice>'' @ LF @ ''  </speak>'' @ LF
         @ ''  '')\<close>

subsection \<open>The session state\<close>

text \<open>
  \<open>new Blob(parts, {type})\<close> holds the concatenation of its parts and a MIME type.
\<close>

record Blob =
  blobBytes :: "byte list"
  blobType :: string

record 's GenerateResult =
  audio :: Blob
  subtitle_result :: 's

text \<open>
  The variables that the listeners of \<open>generate\<close> close over: the socket, the constants
  computed from the options, the three arrays, the two mutable locals, the promise made
  by \<open>Promise.withResolvers\<close>, and whether the thirty-second timer \<open>timeout\<close> is armed.
  \<open>'m\<close> is \<open>AudioMetadata\<close>, \<open>'s\<close> the return type of \<open>parseSubtitle\<close>.

  \<open>draining\<close> is the state of the asynchronous calls of \<open>dealRawAudioChunks\<close> that are
  under way: each of them has taken a chunk from the queue and is suspended at
  \<open>await blob.arrayBuffer()\<close> (line 142); the list holds the chunk of each.
\<close>

record ('m, 's, 'x) Session =
  socket :: WebSocket
  env :: Settings
  audioChunks :: "byte list list"
  subtitleChunks :: "'m list"
  rawAudioChunks :: "byte list list"
  isAudioComplete :: bool
  expectedLength :: number
  promise :: "('s GenerateResult, 'x error) promise"
  timeout :: bool
  draining :: "byte list list"

text \<open>
  The state when \<open>generate\<close> returns its promise: timer armed, listeners registered, the
  synthesis request sent on the socket that \<open>connect\<close> resolved with.
\<close>

definition generate_start ::
  "jsstring \<Rightarrow> GenerateOptions \<Rightarrow> WebSocket \<Rightarrow> ('m, 's, 'x) Session" where
  "generate_start requestId options sock =
     \<lparr>socket = ws_send (requestString requestId (language' (settings options))
                          (voice' (settings options)) (rate' (settings options))
                          (pitch' (settings options)) (volume' (settings options))
                          (text options)) sock,
      env = settings options,
      audioChunks = [], subtitleChunks = [], rawAudioChunks = [],
      isAudioComplete = False, expectedLength = 0,
      promise = Pending, timeout = True, draining = []\<rparr>"

subsection \<open>dealRawAudioChunks\<close>

text \<open>
  The body of the loop once the bytes of the chunk are there, lines 143 to 154. The index
  found in the decoded string is used as an offset into the bytes; \<open>subarray\<close> clamps
  its start to the length, as \<open>drop\<close> does.
\<close>

definition separator :: jsstring where
  "separator = js (''Path:audio'' @ CRLF)"

definition dealChunk :: "byte list \<Rightarrow> ('m, 's, 'x) Session \<Rightarrow> ('m, 's, 'x) Session" where
  "dealChunk bytes s =
     (let binaryString = TextDecoder_decode bytes
      in case indexOf binaryString separator of
           None \<Rightarrow> s
         | Some index \<Rightarrow>
             (let headerText = take index binaryString;
                  s1 = (case contentLengthExec headerText of
                          Some digits \<Rightarrow>
                            s\<lparr>expectedLength := number_add (expectedLength s) (parseInt digits)\<rparr>
                        | None \<Rightarrow> s);
                  audioData = drop (index + length separator) bytes
              in s1\<lparr>audioChunks := audioChunks s1 @ [audioData]\<rparr>))"

text \<open>
  An asynchronous function runs until it awaits a promise that is not settled, or until
  it returns.
\<close>

datatype 'a suspension = Awaits 'a | Returns 'a

text \<open>
  The loop from its test (line 138) to the next \<open>await\<close>, for the call whose place in
  \<open>draining\<close> is \<open>i\<close>. With a chunk in the queue, \<open>shift\<close> takes it and the call waits
  for its bytes; the call's entry in \<open>draining\<close> becomes this chunk (for a call that has no
  entry yet, \<open>i\<close> is the length of the list and the entry is added at the end). With the
  queue empty the function returns, and the call's entry is removed. A queued chunk is a
  binary payload object and never falsy, so the \<open>continue\<close> of line 140 is not taken.
\<close>

definition whileLoop :: "nat \<Rightarrow> ('m, 's, 'x) Session \<Rightarrow> ('m, 's, 'x) Session suspension" where
  "whileLoop i s =
     (case rawAudioChunks s of
        [] \<Rightarrow> Returns (s\<lparr>draining := take i (draining s) @ drop (Suc i) (draining s)\<rparr>)
      | data # rest \<Rightarrow>
          Awaits (s\<lparr>rawAudioChunks := rest,
                    draining := take i (draining s) @ [data] @ drop (Suc i) (draining s)\<rparr>))"

text \<open>A call of \<open>dealRawAudioChunks\<close>, up to its first \<open>await\<close> or its return.\<close>

definition dealRawAudioChunks :: "('m, 's, 'x) Session \<Rightarrow> ('m, 's, 'x) Session suspension" where
  "dealRawAudioChunks s = whileLoop (length (draining s)) s"

text \<open>
  The call at place \<open>i\<close> is resumed when the bytes of its chunk are there: the rest of
  the loop body, then the loop again, on the queue as it is by now.
\<close>

definition resume :: "nat \<Rightarrow> ('m, 's, 'x) Session \<Rightarrow> ('m, 's, 'x) Session suspension" where
  "resume i s = whileLoop i (dealChunk (draining s ! i) s)"

subsection \<open>The listeners\<close>

text \<open>
  The events of a session: a message, close or error event of the socket, the expiry of
  the timer, and the completion of the read that the call at place \<open>i\<close> of \<open>draining\<close>
  awaits.
\<close>

datatype frame = Text jsstring | Binary "byte list"

datatype 'x event =
    OnMessage frame
  | OnClose nat jsstring
  | OnError 'x
  | OnTimeout
  | OnArrayBuffer nat

definition onTimeout :: "('m, 's, 'x) Session \<Rightarrow> ('m, 's, 'x) Session" where
  "onTimeout s =
     s\<lparr>socket := ws_close (socket s), promise := reject GenerateTimeout (promise s)\<rparr>"

definition onClose :: "nat \<Rightarrow> jsstring \<Rightarrow> ('m, 's, 'x) Session \<Rightarrow> ('m, 's, 'x) Session" where
  "onClose code reason s =
     (let s1 = (if \<not> isAudioComplete s
                then s\<lparr>promise := reject (ClosedUnexpectedly code reason) (promise s)\<rparr>
                else s)
      in s1\<lparr>timeout := False\<rparr>)"

definition onError :: "'x \<Rightarrow> ('m, 's, 'x) Session \<Rightarrow> ('m, 's, 'x) Session" where
  "onError e s = s\<lparr>timeout := False, promise := reject (ErrorEvent e) (promise s)\<rparr>"

text \<open>The \<open>catch\<close> block of the message listener, lines 216 to 219.\<close>

definition catch_block :: "'x error \<Rightarrow> ('m, 's, 'x) Session \<Rightarrow> ('m, 's, 'x) Session" where
  "catch_block e s = s\<lparr>timeout := False, promise := reject e (promise s)\<rparr>"

text \<open>
  \<open>audioChunks.reduce((acc, chunk) => acc + chunk.length, 0)\<close>, line 194. The length of
  a typed array is an integer below \<open>2 ^ 53\<close>.
\<close>

definition totalLength :: "byte list list \<Rightarrow> number" where
  "totalLength chunks = foldl (\<lambda>acc chunk. number_add acc (enat (length chunk))) 0 chunks"

text \<open>
  The message listener after \<open>await dealRawAudioChunks()\<close>, lines 194 to 215, with the
  \<open>catch\<close> block for an exception of \<open>parseSubtitle\<close>. The options object handed to
  \<open>parseSubtitle\<close> is the metadata together with the subtitle constants, whose type has
  no \<open>metadata\<close> property.
\<close>

definition afterDrain ::
  "('m list \<Rightarrow> (string \<rightharpoonup> jsval) \<Rightarrow> 'x + 's) \<Rightarrow> ('m, 's, 'x) Session \<Rightarrow> ('m, 's, 'x) Session" where
  "afterDrain parseSubtitle s =
     (if 0 < expectedLength s \<and> totalLength (audioChunks s) < expectedLength s then
        s\<lparr>promise := reject (IncompleteAudio (totalLength (audioChunks s)) (expectedLength s))
                            (promise s)\<rparr>
      else
        (let s2 = s\<lparr>isAudioComplete := True, timeout := False\<rparr>
         in case parseSubtitle (subtitleChunks s2) (subtitle' (env s2)) of
              Inl e \<Rightarrow> catch_block (Thrown e) s2
            | Inr cues \<Rightarrow>
                s2\<lparr>promise :=
                      resolve \<lparr>audio = \<lparr>blobBytes = concat (audioChunks s2),
                                        blobType = ''audio/mp3''\<rparr>,
                               subtitle_result = cues\<rparr> (promise s2),
                    socket := ws_close (socket s2)\<rparr>))"

text \<open>
  The termination branch of the listener around its \<open>await\<close> (line 193): while the call
  of \<open>dealRawAudioChunks\<close> waits, so does the listener; when the call returns, the
  listener goes on in the same turn, before any other event.
\<close>

definition awaitDrain ::
  "('m list \<Rightarrow> (string \<rightharpoonup> jsval) \<Rightarrow> 'x + 's) \<Rightarrow>
   ('m, 's, 'x) Session suspension \<Rightarrow> ('m, 's, 'x) Session" where
  "awaitDrain parseSubtitle call =
     (case call of Awaits s \<Rightarrow> s | Returns s \<Rightarrow> afterDrain parseSubtitle s)"

text \<open>
  The message listener up to its first \<open>await\<close>. \<open>JSON_parse\<close> and \<open>parseSubtitle\<close> are
  the platform's parser and the function of \<open>./subtitle\<close>; either returns \<open>Inl\<close> for an
  exception it throws.
\<close>

definition onMessage ::
  "(jsstring \<Rightarrow> 'x + 'm) \<Rightarrow> ('m list \<Rightarrow> (string \<rightharpoonup> jsval) \<Rightarrow> 'x + 's) \<Rightarrow>
   frame \<Rightarrow> ('m, 's, 'x) Session \<Rightarrow> ('m, 's, 'x) Session" where
  "onMessage JSON_parse parseSubtitle message s =
     (case message of
        Binary data \<Rightarrow> s\<lparr>rawAudioChunks := rawAudioChunks s @ [data]\<rparr>
      | Text data \<Rightarrow>
          if str_includes data (js ''Path:audio.metadata'') then
            (case split data (js ''Path:audio.metadata'') of
               _ # piece # _ \<Rightarrow>
                 (case JSON_parse (trim piece) of
                    Inl e \<Rightarrow> catch_block (Thrown e) s
                  | Inr json \<Rightarrow> s\<lparr>subtitleChunks := subtitleChunks s @ [json]\<rparr>)
             | _ \<Rightarrow> catch_block TypeError s)
          else if str_includes data (js ''Path:turn.end'') then
            awaitDrain parseSubtitle (dealRawAudioChunks s)
          else s)"

text \<open>
  The bytes that the call at place \<open>i\<close> awaits are there: the call is resumed, and with
  it, when it returns, the listener that awaits it.
\<close>

definition onArrayBuffer ::
  "('m list \<Rightarrow> (string \<rightharpoonup> jsval) \<Rightarrow> 'x + 's) \<Rightarrow> nat \<Rightarrow>
   ('m, 's, 'x) Session \<Rightarrow> ('m, 's, 'x) Session" where
  "onArrayBuffer parseSubtitle i s =
     (if i < length (draining s) then awaitDrain parseSubtitle (resume i s) else s)"

text \<open>
  One event of the session. A close event finds the socket closed; the timer fires only
  while it is armed and is spent afterwards.
\<close>

definition step ::
  "(jsstring \<Rightarrow> 'x + 'm) \<Rightarrow> ('m list \<Rightarrow> (string \<rightharpoonup> jsval) \<Rightarrow> 'x + 's) \<Rightarrow>
   'x event \<Rightarrow> ('m, 's, 'x) Session \<Rightarrow> ('m, 's, 'x) Session" where
  "step JSON_parse parseSubtitle ev s =
     (case ev of
        OnMessage message \<Rightarrow> onMessage JSON_parse parseSubtitle message s
      | OnClose code reason \<Rightarrow> onClose code reason (s\<lparr>socket := (socket s)\<lparr>wsState := CLOSED\<rparr>\<rparr>)
      | OnError e \<Rightarrow> onError e s
      | OnTimeout \<Rightarrow> (if timeout s then onTimeout (s\<lparr>timeout := False\<rparr>) else s)
      | OnArrayBuffer i \<Rightarrow> onArrayBuffer parseSubtitle i s)"

fun run ::
  "(jsstring \<Rightarrow> 'x + 'm) \<Rightarrow> ('m list \<Rightarrow> (string \<rightharpoonup> jsval) \<Rightarrow> 'x + 's) \<Rightarrow>
   'x event list \<Rightarrow> ('m, 's, 'x) Session \<Rightarrow> ('m, 's, 'x) Session" where
  "run JSON_parse parseSubtitle [] s = s"
| "run JSON_parse parseSubtitle (ev # evs) s =
     run JSON_parse parseSubtitle evs (step JSON_parse parseSubtitle ev s)"

text \<open>
  \<open>generate\<close>, after the events \<open>cevs\<close> of the connecting socket and the events \<open>evs\<close>
  of the session. An exception of \<open>connect\<close> ends it before there is a socket; while the
  promise of \<open>connect\<close> is pending or when it is rejected, \<open>generate\<close> has not gone past
  line 105; once it is fulfilled, the session runs on the socket it was fulfilled with.
  The listeners that \<open>connect\<close> registered stay on the socket during the session; its
  promise is settled and its timer cancelled by then, so they change nothing that the
  session reads.
\<close>

datatype ('m, 's, 'x) generation =
    Threw "'x error"
  | Connecting "'x Connect"
  | Running "('m, 's, 'x) Session"

definition generation ::
  "(jsstring \<Rightarrow> 'x + 'm) \<Rightarrow> ('m list \<Rightarrow> (string \<rightharpoonup> jsval) \<Rightarrow> 'x + 's) \<Rightarrow>
   jsstring \<Rightarrow> GenerateOptions \<Rightarrow> 'x connect_event list \<Rightarrow> 'x event list \<Rightarrow>
   ('m, 's, 'x) generation" where
  "generation JSON_parse parseSubtitle requestId options cevs evs =
     (case connect (Some (outputFormat' (settings options))) of
        Inl e \<Rightarrow> Threw e
      | Inr c \<Rightarrow>
          (case connPromise (connect_run cevs c) of
             Fulfilled sock \<Rightarrow>
               Running (run JSON_parse parseSubtitle evs (generate_start requestId options sock))
           | _ \<Rightarrow> Connecting (connect_run cevs c)))"

text \<open>The promise that \<open>generate\<close> returns.\<close>

definition generate ::
  "(jsstring \<Rightarrow> 'x + 'm) \<Rightarrow> ('m list \<Rightarrow> (string \<rightharpoonup> jsval) \<Rightarrow> 'x + 's) \<Rightarrow>
   jsstring \<Rightarrow> GenerateOptions \<Rightarrow> 'x connect_event list \<Rightarrow> 'x event list \<Rightarrow>
   ('s GenerateResult, 'x error) promise" where
  "generate JSON_parse parseSubtitle requestId options cevs evs =
     (case generation JSON_parse parseSubtitle requestId options cevs evs of
        Threw e \<Rightarrow> Rejected e
      | Connecting c \<Rightarrow> (case connPromise c of Rejected e \<Rightarrow> Rejected e | _ \<Rightarrow> Pending)
      | Running s \<Rightarrow> promise s)"

text \<open>What \<open>generate\<close> has sent so far, on either socket; nothing when there is none.\<close>

definition generate_sent ::
  "(jsstring \<Rightarrow> 'x + 'm) \<Rightarrow> ('m list \<Rightarrow> (string \<rightharpoonup> jsval) \<Rightarrow> 'x + 's) \<Rightarrow>
   jsstring \<Rightarrow> GenerateOptions \<Rightarrow> 'x connect_event list \<Rightarrow> 'x event list \<Rightarrow>
   jsstring list" where
  "generate_sent JSON_parse parseSubtitle requestId options cevs evs =
     (case generation JSON_parse parseSubtitle requestId options cevs evs of
        Threw e \<Rightarrow> []
      | Connecting c \<Rightarrow> wsSent (ws c)
      | Running s \<Rightarrow> wsSent (socket s))"

section \<open>Sample inputs\<close>

text \<open>
  Stand-ins for the two functions the model takes as parameters, and concrete frames, for
  evaluating the model. The sample parser accepts a text that starts with an opening
  brace and returns it unparsed; the sample cue builder returns the metadata list it is
  given, which shows the list that was passed; \<open>echo_options\<close> returns two properties of
  the options it is given instead.
\<close>

definition sample_JSON_parse :: "jsstring \<Rightarrow> unit + jsstring" where
  "sample_JSON_parse s = (case s of [] \<Rightarrow> Inl () | c # cs \<Rightarrow> if c = 0x7B then Inr s else Inl ())"

definition sample_parseSubtitle ::
  "jsstring list \<Rightarrow> (string \<rightharpoonup> jsval) \<Rightarrow> unit + jsstring list" where
  "sample_parseSubtitle metadata opts = Inr metadata"

definition echo_options ::
  "jsstring list \<Rightarrow> (string \<rightharpoonup> jsval) \<Rightarrow> unit + jsval option \<times> jsval option" where
  "echo_options metadata opts = Inr (opts ''splitBy'', opts ''count'')"

definition sample_options :: GenerateOptions where
  "sample_options = \<lparr>text = js ''Hi'', voice = None, language = None, outputFormat = None,
     rate = None, pitch = None, volume = None, subtitle = None\<rparr>"

definition ascii :: "string \<Rightarrow> byte list" where
  "ascii s = map of_char s"

definition sample_frame :: "byte list" where
  "sample_frame = ascii (''Content-Length: 4'' @ CRLF @ ''Path:audio'' @ CRLF) @ [1, 2, 3, 4]"

definition turn_end_text :: jsstring where
  "turn_end_text = js (''Path:turn.end'' @ CRLF)"

definition turn_end :: frame where
  "turn_end = Text turn_end_text"

definition short_frame :: "byte list" where
  "short_frame = ascii (''Content-Length: 10'' @ CRLF @ ''Path:audio'' @ CRLF) @ [1]"

definition sample_start :: "(jsstring, jsstring list, unit) Session" where
  "sample_start =
     generate_start (js ''id'') sample_options
       \<lparr>wsUrl = url, wsState = OPEN,
        wsSent = [initialMessage (outputFormat' (settings sample_options))]\<rparr>"

definition bare_frame :: "byte list" where
  "bare_frame = ascii ''Path:audi'' @ [9, 8, 7]"

definition malformed_metadata_text :: jsstring where
  "malformed_metadata_text = js (''Path:audio.metadata'' @ CRLF @ CRLF @ ''oops'' @ CRLF)"

definition mixed_case_frame :: "byte list" where
  "mixed_case_frame =
     ascii (''content-LENGTH: 12'' @ CRLF @ ''X-Id:7'' @ CRLF @ ''Path:audio'' @ CRLF) @ [1, 2, 3]"

definition plain_frame :: "byte list" where
  "plain_frame = ascii (''X-Id:7'' @ CRLF @ ''Path:audio'' @ CRLF) @ [5, 6]"

text \<open>
  A frame whose header is the two bytes of the UTF-8 encoding of U+00E9, followed by the
  separator and three payload bytes.
\<close>

definition accented_frame :: "byte list" where
  "accented_frame = [0xC3, 0xA9] @ ascii (''Path:audio'' @ CRLF) @ [1, 2, 3]"

text \<open>
  Frames whose header has the field without a space after the colon, a longer key that
  ends in the field's key, and a length of \<open>2 ^ 53 + 1\<close>.
\<close>

definition nospace_frame :: "byte list" where
  "nospace_frame = ascii (''Content-Length:5'' @ CRLF @ ''Path:audio'' @ CRLF) @ [1, 2, 3, 4, 5]"

definition prefixed_frame :: "byte list" where
  "prefixed_frame = ascii (''X-Content-Length: 7'' @ CRLF @ ''Path:audio'' @ CRLF) @ [1]"

definition huge_frame :: "byte list" where
  "huge_frame =
     ascii (''Content-Length: 9007199254740993'' @ CRLF @ ''Path:audio'' @ CRLF) @ [1]"

section \<open>What one binary frame contributes\<close>

text \<open>
  The effects of the loop body on a chunk, read off \<open>dealChunk\<close>: the bytes it appends
  to \<open>audioChunks\<close>, if any, the header text it searches, and what it makes of
  \<open>expectedLength\<close>. \<open>dealChunks\<close> is the loop body on one chunk after the other.
\<close>

definition separatorIndex :: "byte list \<Rightarrow> nat option" where
  "separatorIndex bytes = indexOf (TextDecoder_decode bytes) separator"

definition audioData :: "byte list \<Rightarrow> byte list option" where
  "audioData bytes =
     (case separatorIndex bytes of
        None \<Rightarrow> None
      | Some index \<Rightarrow> Some (drop (index + length separator) bytes))"

definition headerText :: "byte list \<Rightarrow> jsstring" where
  "headerText bytes =
     (case separatorIndex bytes of
        None \<Rightarrow> []
      | Some index \<Rightarrow> take index (TextDecoder_decode bytes))"

definition addDeclared :: "number \<Rightarrow> byte list \<Rightarrow> number" where
  "addDeclared expected bytes =
     (case separatorIndex bytes of
        None \<Rightarrow> expected
      | Some index \<Rightarrow>
          (case contentLengthExec (take index (TextDecoder_decode bytes)) of
             None \<Rightarrow> expected
           | Some digits \<Rightarrow> number_add expected (parseInt digits)))"

definition dealChunks :: "byte list list \<Rightarrow> ('m, 's, 'x) Session \<Rightarrow> ('m, 's, 'x) Session" where
  "dealChunks chunks s = foldl (\<lambda>s' chunk. dealChunk chunk s') s chunks"

definition has_separator :: "byte list \<Rightarrow> bool" where
  "has_separator bytes = (separatorIndex bytes \<noteq> None)"

text \<open>
  The specification's payload section of a binary frame: the bytes after the separator
  token, found in the frame's bytes; a frame without the token has none.
\<close>

definition separatorBytes :: "byte list" where
  "separatorBytes = ascii (''Path:audio'' @ CRLF)"

definition payload_section :: "byte list \<Rightarrow> byte list" where
  "payload_section bytes =
     (case indexOf bytes separatorBytes of
        None \<Rightarrow> []
      | Some i \<Rightarrow> drop (i + length separatorBytes) bytes)"

text \<open>
  A header is ASCII when the separator token occurs in the frame's bytes and every byte
  before its first occurrence is below 0x80.
\<close>

definition ascii_header :: "byte list \<Rightarrow> bool" where
  "ascii_header bytes \<longleftrightarrow>
     (\<exists>i. indexOf bytes separatorBytes = Some i \<and> (\<forall>b\<in>set (take i bytes). b \<le> 0x7F))"

section \<open>The streaming part of a session\<close>

text \<open>
  The binary frame that an event delivers, the metadata that an event delivers (a text
  frame with the metadata marker whose payload parses), and the events that are one or
  the other.
\<close>

definition binary_of :: "'x event \<Rightarrow> byte list option" where
  "binary_of ev = (case ev of OnMessage (Binary bytes) \<Rightarrow> Some bytes | _ \<Rightarrow> None)"

definition metadata_of :: "(jsstring \<Rightarrow> 'x + 'm) \<Rightarrow> 'x event \<Rightarrow> 'm option" where
  "metadata_of JSON_parse ev =
     (case ev of
        OnMessage (Text data) \<Rightarrow>
          if str_includes data (js ''Path:audio.metadata'')
          then (case JSON_parse (trim (split data (js ''Path:audio.metadata'') ! 1)) of
                  Inl e \<Rightarrow> None
                | Inr json \<Rightarrow> Some json)
          else None
      | _ \<Rightarrow> None)"

definition streaming_frame :: "(jsstring \<Rightarrow> 'x + 'm) \<Rightarrow> 'x event \<Rightarrow> bool" where
  "streaming_frame JSON_parse ev \<longleftrightarrow> binary_of ev \<noteq> None \<or> metadata_of JSON_parse ev \<noteq> None"

section \<open>Prompt reads\<close>

text \<open>
  The executions in which every awaited read completes before the next event of the
  socket or the timer: after an event, \<open>settle\<close> lets the calls under way finish one
  after the other. Each completion either ends a call or takes a chunk from the queue, so
  as many completions as there are calls and queued chunks are enough.
\<close>

fun settle_steps ::
  "(jsstring \<Rightarrow> 'x + 'm) \<Rightarrow> ('m list \<Rightarrow> (string \<rightharpoonup> jsval) \<Rightarrow> 'x + 's) \<Rightarrow>
   nat \<Rightarrow> ('m, 's, 'x) Session \<Rightarrow> ('m, 's, 'x) Session" where
  "settle_steps JSON_parse parseSubtitle 0 s = s"
| "settle_steps JSON_parse parseSubtitle (Suc n) s =
     (if draining s = [] then s
      else settle_steps JSON_parse parseSubtitle n
             (step JSON_parse parseSubtitle (OnArrayBuffer 0) s))"

definition settle ::
  "(jsstring \<Rightarrow> 'x + 'm) \<Rightarrow> ('m list \<Rightarrow> (string \<rightharpoonup> jsval) \<Rightarrow> 'x + 's) \<Rightarrow>
   ('m, 's, 'x) Session \<Rightarrow> ('m, 's, 'x) Session" where
  "settle JSON_parse parseSubtitle s =
     settle_steps JSON_parse parseSubtitle (length (rawAudioChunks s) + length (draining s)) s"

definition prompt_step ::
  "(jsstring \<Rightarrow> 'x + 'm) \<Rightarrow> ('m list \<Rightarrow> (string \<rightharpoonup> jsval) \<Rightarrow> 'x + 's) \<Rightarrow>
   'x event \<Rightarrow> ('m, 's, 'x) Session \<Rightarrow> ('m, 's, 'x) Session" where
  "prompt_step JSON_parse parseSubtitle ev s =
     settle JSON_parse parseSubtitle (step JSON_parse parseSubtitle ev s)"

fun prompt_run ::
  "(jsstring \<Rightarrow> 'x + 'm) \<Rightarrow> ('m list \<Rightarrow> (string \<rightharpoonup> jsval) \<Rightarrow> 'x + 's) \<Rightarrow>
   'x event list \<Rightarrow> ('m, 's, 'x) Session \<Rightarrow> ('m, 's, 'x) Session" where
  "prompt_run JSON_parse parseSubtitle [] s = s"
| "prompt_run JSON_parse parseSubtitle (ev # evs) s =
     prompt_run JSON_parse parseSubtitle evs (prompt_step JSON_parse parseSubtitle ev s)"

section \<open>Invariants of a session\<close>

text \<open>
  \<open>live\<close>: while the promise is pending the timer is armed and the audio is not marked
  complete. \<open>tidy\<close>: a settled promise, unless it was rejected for incomplete audio, has
  its timer cancelled; and after a fulfilment, a timeout or an unexpected close the
  socket is no longer open.
\<close>

definition live :: "('m, 's, 'x) Session \<Rightarrow> bool" where
  "live s \<longleftrightarrow> (promise s = Pending \<longrightarrow> timeout s \<and> \<not> isAudioComplete s)"

definition tidy :: "('m, 's, 'x) Session \<Rightarrow> bool" where
  "tidy s \<longleftrightarrow>
     (promise s = Pending \<or> (\<exists>got expected. promise s = Rejected (IncompleteAudio got expected))
        \<or> \<not> timeout s)
     \<and> ((\<exists>result. promise s = Fulfilled result) \<or> promise s = Rejected GenerateTimeout
          \<or> (\<exists>code reason. promise s = Rejected (ClosedUnexpectedly code reason))
        \<longrightarrow> wsState (socket s) \<noteq> OPEN)"
section \<open>A Content-Length field of a header text\<close>

text \<open>
  Two readings of the header search, to be compared with the pattern above.
  \<open>ci_eq c p\<close>: the code unit \<open>c\<close> is the pattern character \<open>p\<close> or the same ASCII letter in
  the other case. \<open>decimal\<close> is the integer that a digit string denotes.

  The specification's reading: the header text is a block of lines \<open>Key:Value\<close> separated
  by CRLF; a line is split at its first colon; a Content-Length field is a line whose key
  is \<open>Content-Length\<close> in any case and whose value, without the white space around it, is
  a non-empty string of decimal digits. \<open>spec_content_length\<close> is the integer of the first
  such field.
\<close>

definition ci_eq :: "jschar \<Rightarrow> jschar \<Rightarrow> bool" where
  "ci_eq c p \<longleftrightarrow>
     c = p \<or> (0x41 \<le> p \<and> p \<le> 0x5A \<and> c = p + 0x20) \<or> (0x61 \<le> p \<and> p \<le> 0x7A \<and> c = p - 0x20)"

definition decimal :: "jsstring \<Rightarrow> nat" where
  "decimal digits = (\<Sum>i<length digits. (unat (digits ! i) - 48) * 10 ^ (length digits - Suc i))"

definition header_lines :: "jsstring \<Rightarrow> jsstring list" where
  "header_lines header = split header (js CRLF)"

definition field_key :: "jsstring \<Rightarrow> jsstring" where
  "field_key line = takeWhile (\<lambda>c. c \<noteq> 0x3A) line"

definition field_value :: "jsstring \<Rightarrow> jsstring" where
  "field_value line = trim (drop 1 (dropWhile (\<lambda>c. c \<noteq> 0x3A) line))"

definition content_length_line :: "jsstring \<Rightarrow> bool" where
  "content_length_line line \<longleftrightarrow>
     0x3A \<in> set line \<and> list_all2 ci_eq (field_key line) (js ''Content-Length'')
     \<and> field_value line \<noteq> [] \<and> list_all isDigit (field_value line)"

definition spec_content_length :: "jsstring \<Rightarrow> nat option" where
  "spec_content_length header =
     (case filter content_length_line (header_lines header) of
        [] \<Rightarrow> None
      | line # others \<Rightarrow> Some (decimal (field_value line)))"

text \<open>
  The reading that the pattern implements. \<open>content_length_occurrence header j digits\<close>: at
  offset \<open>j\<close> of the header text, wherever that is in a line, stand the sixteen characters
  \<open>Content-Length: \<close>, letters in any case, the colon followed by one space, and directly
  after them the non-empty run of decimal digits \<open>digits\<close>, which ends at the end of the
  text or before a character that is not a digit.
\<close>

definition content_length_occurrence :: "jsstring \<Rightarrow> nat \<Rightarrow> jsstring \<Rightarrow> bool" where
  "content_length_occurrence header j digits \<longleftrightarrow>
     (\<exists>key rest. drop j header = key @ digits @ rest
        \<and> list_all2 ci_eq key (js ''Content-Length: '')
        \<and> digits \<noteq> [] \<and> list_all isDigit digits
        \<and> (rest = [] \<or> \<not> isDigit (hd rest)))"

section \<open>Settled promises stay as they are\<close>

lemma reject_settled: "p \<noteq> Pending \<Longrightarrow> reject e p = p"
  by (cases p) (simp_all add: reject_def)

lemma resolve_settled: "p \<noteq> Pending \<Longrightarrow> resolve v p = p"
  by (cases p) (simp_all add: resolve_def)

lemma reject_Pending: "reject e Pending = Rejected e" by (simp add: reject_def)
lemma resolve_Pending: "resolve v Pending = Fulfilled v" by (simp add: resolve_def)

lemma reject_not_Pending: "reject e p \<noteq> Pending"
  by (cases p) (simp_all add: reject_def)

lemma resolve_not_Pending: "resolve v p \<noteq> Pending"
  by (cases p) (simp_all add: resolve_def)

lemma dealChunk_eq:
  "dealChunk bytes s =
     s\<lparr>expectedLength := addDeclared (expectedLength s) bytes,
       audioChunks := audioChunks s @ (case audioData bytes of None \<Rightarrow> [] | Some d \<Rightarrow> [d])\<rparr>"
  by (simp add: dealChunk_def audioData_def addDeclared_def separatorIndex_def Let_def
        split: option.split)

lemma dealChunks_eq:
  "dealChunks chunks s =
     s\<lparr>expectedLength := foldl addDeclared (expectedLength s) chunks,
       audioChunks := audioChunks s @ List.map_filter audioData chunks\<rparr>"
proof (induction chunks arbitrary: s)
  case Nil
  show ?case by (simp add: dealChunks_def)
next
  case (Cons c cs)
  have "dealChunks (c # cs) s = dealChunks cs (dealChunk c s)"
    by (simp add: dealChunks_def)
  then show ?case
    by (simp add: Cons.IH dealChunk_eq split: option.split)
qed

lemma afterDrain_sel:
  "draining (afterDrain Q s) = draining s"
  "rawAudioChunks (afterDrain Q s) = rawAudioChunks s"
  "audioChunks (afterDrain Q s) = audioChunks s"
  "expectedLength (afterDrain Q s) = expectedLength s"
  "subtitleChunks (afterDrain Q s) = subtitleChunks s"
  "env (afterDrain Q s) = env s"
  by (simp_all add: afterDrain_def catch_block_def Let_def split: sum.split)

lemma promise_afterDrain_settled:
  "promise s \<noteq> Pending \<Longrightarrow> promise (afterDrain Q s) = promise s"
  by (simp add: afterDrain_def catch_block_def reject_settled resolve_settled Let_def
        split: sum.split)

lemma promise_whileLoop:
  "promise (awaitDrain Q (whileLoop i s)) = promise (awaitDrain Q (Returns s))
   \<or> promise (awaitDrain Q (whileLoop i s)) = promise s"
  by (simp add: whileLoop_def awaitDrain_def afterDrain_def catch_block_def Let_def
        split: list.split sum.split)

lemma promise_awaitDrain_whileLoop_settled:
  "promise s \<noteq> Pending \<Longrightarrow> promise (awaitDrain Q (whileLoop i s)) = promise s"
  by (simp add: whileLoop_def awaitDrain_def afterDrain_def catch_block_def Let_def
        reject_settled resolve_settled split: list.split sum.split)

lemma promise_dealChunk: "promise (dealChunk bytes s) = promise s"
  by (simp add: dealChunk_eq)

lemma promise_onMessage_settled:
  "promise s \<noteq> Pending \<Longrightarrow> promise (onMessage P Q m s) = promise s"
  by (simp add: onMessage_def catch_block_def dealRawAudioChunks_def
        promise_awaitDrain_whileLoop_settled reject_settled split: frame.split list.split sum.split)

lemma promise_onArrayBuffer_settled:
  "promise s \<noteq> Pending \<Longrightarrow> promise (onArrayBuffer Q i s) = promise s"
  by (simp add: onArrayBuffer_def resume_def promise_awaitDrain_whileLoop_settled promise_dealChunk)

lemma promise_step_settled:
  "promise s \<noteq> Pending \<Longrightarrow> promise (step P Q ev s) = promise s"
  by (cases ev)
     (simp_all add: step_def promise_onMessage_settled promise_onArrayBuffer_settled
        onClose_def onError_def onTimeout_def reject_settled Let_def)

lemma promise_run_settled:
  "promise s \<noteq> Pending \<Longrightarrow> promise (run P Q evs s) = promise s"
  by (induction evs arbitrary: s) (simp_all add: promise_step_settled)

lemma run_append: "run P Q (evs @ evs') s = run P Q evs' (run P Q evs s)"
  by (induction evs arbitrary: s) simp_all

lemma connPromise_step_settled:
  "connPromise c \<noteq> Pending \<Longrightarrow> connPromise (connect_step ev c) = connPromise c"
  by (cases ev) (simp_all add: connect_step_def reject_settled resolve_settled Let_def)

lemma connPromise_run_settled:
  "connPromise c \<noteq> Pending \<Longrightarrow> connPromise (connect_run evs c) = connPromise c"
  by (induction evs arbitrary: c) (simp_all add: connPromise_step_settled)

lemma connect_run_append:
  "connect_run (evs @ evs') c = connect_run evs' (connect_run evs c)"
  by (induction evs arbitrary: c) simp_all

section \<open>The drain in closed form\<close>

lemma whileLoop_Nil:
  "rawAudioChunks s = [] \<Longrightarrow>
   whileLoop i s = Returns (s\<lparr>draining := take i (draining s) @ drop (Suc i) (draining s)\<rparr>)"
  by (simp add: whileLoop_def)

lemma whileLoop_Cons:
  "rawAudioChunks s = d # rest \<Longrightarrow>
   whileLoop i s = Awaits (s\<lparr>rawAudioChunks := rest,
     draining := take i (draining s) @ [d] @ drop (Suc i) (draining s)\<rparr>)"
  by (simp add: whileLoop_def)

lemma dealChunk_sel:
  "rawAudioChunks (dealChunk bytes s) = rawAudioChunks s"
  "draining (dealChunk bytes s) = draining s"
  "subtitleChunks (dealChunk bytes s) = subtitleChunks s"
  "env (dealChunk bytes s) = env s"
  "socket (dealChunk bytes s) = socket s"
  "timeout (dealChunk bytes s) = timeout s"
  "isAudioComplete (dealChunk bytes s) = isAudioComplete s"
  by (simp_all add: dealChunk_eq)

lemma dealChunk_update:
  "dealChunk bytes (s\<lparr>rawAudioChunks := q, draining := ds\<rparr>)
     = (dealChunk bytes s)\<lparr>rawAudioChunks := q, draining := ds\<rparr>"
  by (simp add: dealChunk_eq)

lemma dealChunks_update:
  "dealChunks cs (s\<lparr>rawAudioChunks := q, draining := ds\<rparr>)
     = (dealChunks cs s)\<lparr>rawAudioChunks := q, draining := ds\<rparr>"
  by (simp add: dealChunks_eq)

lemma dealChunks_Cons: "dealChunks (c # cs) s = dealChunks cs (dealChunk c s)"
  by (simp add: dealChunks_def)

lemma queue_idle: "rawAudioChunks s = [] \<Longrightarrow> s\<lparr>rawAudioChunks := []\<rparr> = s"
  by simp

lemma draining_idle: "draining s = [] \<Longrightarrow> s\<lparr>draining := []\<rparr> = s"
  by simp

lemma draining_same:
  "draining s = ds \<Longrightarrow> s\<lparr>rawAudioChunks := q, draining := ds\<rparr> = s\<lparr>rawAudioChunks := q\<rparr>"
  by (cases s) simp

lemma draining_dealChunks: "draining (dealChunks cs s) = draining s"
  by (simp add: dealChunks_eq)

lemma run_drain:
  "draining t = ds @ [d] \<Longrightarrow>
   run P Q (replicate (Suc (length (rawAudioChunks t))) (OnArrayBuffer (length ds))) t
     = afterDrain Q ((dealChunks (d # rawAudioChunks t) t)\<lparr>rawAudioChunks := [], draining := ds\<rparr>)"
proof (induction q \<equiv> "rawAudioChunks t" arbitrary: t d)
  case Nil
  have q0: "rawAudioChunks (dealChunk d t) = []"
    using Nil(1) by (simp add: dealChunk_sel)
  have "run P Q (replicate (Suc (length (rawAudioChunks t))) (OnArrayBuffer (length ds))) t
        = afterDrain Q ((dealChunk d t)\<lparr>draining := ds\<rparr>)"
    using Nil(1) [symmetric] Nil(2)
    by (simp add: step_def onArrayBuffer_def resume_def whileLoop_Nil dealChunk_sel awaitDrain_def)
  also have "\<dots> = afterDrain Q ((dealChunk d t)\<lparr>rawAudioChunks := [], draining := ds\<rparr>)"
    by (simp only: queue_idle [OF q0])
  also have "\<dots> = afterDrain Q ((dealChunks (d # rawAudioChunks t) t)\<lparr>rawAudioChunks := [], draining := ds\<rparr>)"
    using Nil(1) [symmetric] by (simp add: dealChunks_def)
  finally show ?case .
next
  case (Cons c q)
  let ?t2 = "(dealChunk d t)\<lparr>rawAudioChunks := q, draining := ds @ [c]\<rparr>"
  have st: "step P Q (OnArrayBuffer (length ds)) t = ?t2"
    using Cons(2) [symmetric] Cons(3)
    by (simp add: step_def onArrayBuffer_def resume_def whileLoop_Cons [where d = c and rest = q]
          dealChunk_sel awaitDrain_def)
  have q: "q = rawAudioChunks ?t2" by simp
  have dr: "draining ?t2 = ds @ [c]" by simp
  have "run P Q (replicate (Suc (length (rawAudioChunks t))) (OnArrayBuffer (length ds))) t
        = run P Q (replicate (Suc (length q)) (OnArrayBuffer (length ds))) ?t2"
    using Cons(2) [symmetric] st by simp
  also have "\<dots> = afterDrain Q ((dealChunks (c # q) ?t2)\<lparr>rawAudioChunks := [], draining := ds\<rparr>)"
    using Cons(1) [OF q dr] by simp
  also have "\<dots> = afterDrain Q ((dealChunks (d # rawAudioChunks t) t)\<lparr>rawAudioChunks := [], draining := ds\<rparr>)"
    using Cons(2) [symmetric] by (simp add: dealChunks_update dealChunks_Cons)
  finally show ?case .
qed

lemma onMessage_turn_end_frame:
  "\<not> str_includes data (js ''Path:audio.metadata'') \<Longrightarrow> str_includes data (js ''Path:turn.end'') \<Longrightarrow>
   onMessage P Q (Text data) s = awaitDrain Q (dealRawAudioChunks s)"
  by (simp add: onMessage_def)

lemma run_turn_end_drain:
  assumes "\<not> str_includes data (js ''Path:audio.metadata'')" "str_includes data (js ''Path:turn.end'')"
  shows "run P Q (OnMessage (Text data) #
                  replicate (length (rawAudioChunks s)) (OnArrayBuffer (length (draining s)))) s
         = afterDrain Q ((dealChunks (rawAudioChunks s) s)\<lparr>rawAudioChunks := []\<rparr>)"
proof (cases "rawAudioChunks s")
  case Nil
  have "run P Q (OnMessage (Text data) #
                  replicate (length (rawAudioChunks s)) (OnArrayBuffer (length (draining s)))) s
        = afterDrain Q (s\<lparr>draining := draining s\<rparr>)"
    using Nil assms
    by (simp add: step_def onMessage_turn_end_frame dealRawAudioChunks_def whileLoop_Nil
          awaitDrain_def)
  also have "\<dots> = afterDrain Q s" by simp
  also have "\<dots> = afterDrain Q (s\<lparr>rawAudioChunks := []\<rparr>)"
    by (simp only: queue_idle [OF Nil])
  also have "\<dots> = afterDrain Q ((dealChunks (rawAudioChunks s) s)\<lparr>rawAudioChunks := []\<rparr>)"
    using Nil by (simp add: dealChunks_def)
  finally show ?thesis .
next
  case (Cons d q)
  let ?t = "s\<lparr>rawAudioChunks := q, draining := draining s @ [d]\<rparr>"
  have st: "step P Q (OnMessage (Text data)) s = ?t"
    using assms Cons
    by (simp add: step_def onMessage_turn_end_frame dealRawAudioChunks_def
          whileLoop_Cons [where d = d and rest = q] awaitDrain_def)
  have "run P Q (OnMessage (Text data) #
                  replicate (length (rawAudioChunks s)) (OnArrayBuffer (length (draining s)))) s
        = run P Q (replicate (Suc (length (rawAudioChunks ?t))) (OnArrayBuffer (length (draining s)))) ?t"
    using Cons st by simp
  also have "\<dots> = afterDrain Q ((dealChunks (d # rawAudioChunks ?t) ?t)
                      \<lparr>rawAudioChunks := [], draining := draining s\<rparr>)"
    by (rule run_drain) simp
  also have "\<dots> = afterDrain Q ((dealChunks (rawAudioChunks s) s)\<lparr>rawAudioChunks := []\<rparr>)"
    using Cons by (simp add: dealChunks_update draining_same [OF draining_dealChunks])
  finally show ?thesis .
qed

lemma settle_steps_idle: "draining s = [] \<Longrightarrow> settle_steps P Q n s = s"
  by (cases n) simp_all

lemma settle_idle: "draining s = [] \<Longrightarrow> settle P Q s = s"
  by (simp add: settle_def settle_steps_idle)

lemma settle_steps_single:
  "draining t = [d] \<Longrightarrow> length (rawAudioChunks t) < n \<Longrightarrow>
   settle_steps P Q n t
     = afterDrain Q ((dealChunks (d # rawAudioChunks t) t)\<lparr>rawAudioChunks := [], draining := []\<rparr>)"
proof (induction q \<equiv> "rawAudioChunks t" arbitrary: t d n)
  case Nil
  from Nil(3) obtain m where n: "n = Suc m" by (cases n) auto
  have q0: "rawAudioChunks (dealChunk d t) = []"
    using Nil(1) by (simp add: dealChunk_sel)
  have "settle_steps P Q n t = afterDrain Q ((dealChunk d t)\<lparr>draining := []\<rparr>)"
    using Nil(1) [symmetric] Nil(2) n
    by (simp add: step_def onArrayBuffer_def resume_def whileLoop_Nil dealChunk_sel awaitDrain_def
          settle_steps_idle afterDrain_sel)
  also have "\<dots> = afterDrain Q ((dealChunk d t)\<lparr>rawAudioChunks := [], draining := []\<rparr>)"
    by (simp only: queue_idle [OF q0])
  also have "\<dots> = afterDrain Q ((dealChunks (d # rawAudioChunks t) t)\<lparr>rawAudioChunks := [], draining := []\<rparr>)"
    using Nil(1) [symmetric] by (simp add: dealChunks_def)
  finally show ?case .
next
  case (Cons c q)
  from Cons(4) obtain m where n: "n = Suc m" by (cases n) auto
  let ?t2 = "(dealChunk d t)\<lparr>rawAudioChunks := q, draining := [c]\<rparr>"
  have st: "step P Q (OnArrayBuffer 0) t = ?t2"
    using Cons(2) [symmetric] Cons(3)
    by (simp add: step_def onArrayBuffer_def resume_def whileLoop_Cons [where d = c and rest = q]
          dealChunk_sel awaitDrain_def)
  have q: "q = rawAudioChunks ?t2" by simp
  have dr: "draining ?t2 = [c]" by simp
  have len: "length (rawAudioChunks ?t2) < m"
    using Cons(4) Cons(2) [symmetric] n by simp
  have "settle_steps P Q n t = settle_steps P Q m ?t2"
    using n st Cons(3) by simp
  also have "\<dots> = afterDrain Q ((dealChunks (c # q) ?t2)\<lparr>rawAudioChunks := [], draining := []\<rparr>)"
    using Cons(1) [OF q dr len] by simp
  also have "\<dots> = afterDrain Q ((dealChunks (d # rawAudioChunks t) t)\<lparr>rawAudioChunks := [], draining := []\<rparr>)"
    using Cons(2) [symmetric] by (simp add: dealChunks_update dealChunks_Cons)
  finally show ?case .
qed

lemma prompt_step_turn_end:
  assumes "\<not> str_includes data (js ''Path:audio.metadata'')" "str_includes data (js ''Path:turn.end'')"
    and "draining s = []"
  shows "prompt_step P Q (OnMessage (Text data)) s
         = afterDrain Q ((dealChunks (rawAudioChunks s) s)\<lparr>rawAudioChunks := []\<rparr>)"
proof (cases "rawAudioChunks s")
  case Nil
  have "prompt_step P Q (OnMessage (Text data)) s = afterDrain Q (s\<lparr>draining := []\<rparr>)"
    using Nil assms
    by (simp add: prompt_step_def step_def onMessage_turn_end_frame dealRawAudioChunks_def
          whileLoop_Nil awaitDrain_def settle_idle afterDrain_sel)
  also have "\<dots> = afterDrain Q s"
    by (simp only: draining_idle [OF assms(3)])
  also have "\<dots> = afterDrain Q (s\<lparr>rawAudioChunks := []\<rparr>)"
    by (simp only: queue_idle [OF Nil])
  also have "\<dots> = afterDrain Q ((dealChunks (rawAudioChunks s) s)\<lparr>rawAudioChunks := []\<rparr>)"
    using Nil by (simp add: dealChunks_def)
  finally show ?thesis .
next
  case (Cons d q)
  let ?t = "s\<lparr>rawAudioChunks := q, draining := [d]\<rparr>"
  have st: "step P Q (OnMessage (Text data)) s = ?t"
    using assms Cons
    by (simp add: step_def onMessage_turn_end_frame dealRawAudioChunks_def
          whileLoop_Cons [where d = d and rest = q] awaitDrain_def)
  have "prompt_step P Q (OnMessage (Text data)) s
        = settle_steps P Q (length (rawAudioChunks ?t) + 1) ?t"
    using st by (simp add: prompt_step_def settle_def)
  also have "\<dots> = afterDrain Q ((dealChunks (d # rawAudioChunks ?t) ?t)
                      \<lparr>rawAudioChunks := [], draining := []\<rparr>)"
    by (rule settle_steps_single) simp_all
  also have "\<dots> = afterDrain Q ((dealChunks (rawAudioChunks s) s)\<lparr>rawAudioChunks := []\<rparr>)"
    using Cons assms(3) draining_same [OF draining_dealChunks, where cs1 = "d # q" and s1 = s]
    by (simp add: dealChunks_update)
  finally show ?thesis .
qed

lemma draining_step_idle:
  assumes "draining s = []"
    and "\<forall>data. ev = OnMessage (Text data) \<longrightarrow>
           str_includes data (js ''Path:audio.metadata'') \<or> \<not> str_includes data (js ''Path:turn.end'')"
  shows "draining (step P Q ev s) = []"
  using assms
  by (cases ev)
     (auto simp: step_def onMessage_def catch_block_def onClose_def onError_def onTimeout_def
        onArrayBuffer_def Let_def split: frame.split list.split sum.split)

lemma prompt_step_other:
  assumes "draining s = []"
    and "\<forall>data. ev = OnMessage (Text data) \<longrightarrow>
           str_includes data (js ''Path:audio.metadata'') \<or> \<not> str_includes data (js ''Path:turn.end'')"
  shows "prompt_step P Q ev s = step P Q ev s"
  using draining_step_idle [OF assms] by (simp add: prompt_step_def settle_idle)

lemma draining_prompt_step: "draining s = [] \<Longrightarrow> draining (prompt_step P Q ev s) = []"
proof (cases "\<forall>data. ev = OnMessage (Text data) \<longrightarrow>
           str_includes data (js ''Path:audio.metadata'') \<or> \<not> str_includes data (js ''Path:turn.end'')")
  case True
  assume "draining s = []"
  with True show ?thesis
    by (simp add: prompt_step_other draining_step_idle)
next
  case False
  assume d: "draining s = []"
  from False obtain data where "ev = OnMessage (Text data)"
    "\<not> str_includes data (js ''Path:audio.metadata'')" "str_includes data (js ''Path:turn.end'')"
    by auto
  with d show ?thesis
    by (simp add: prompt_step_turn_end afterDrain_sel dealChunks_eq)
qed

section \<open>Numbers\<close>

lemma roundNumber_small: "n < 2 ^ 53 \<Longrightarrow> roundNumber n = enat n"
  by (simp add: roundNumber_def)

lemma number_add_small: "x + y < 2 ^ 53 \<Longrightarrow> number_add (enat x) (enat y) = enat (x + y)"
  by (simp add: number_add_def roundNumber_small)



lemma number_add_numeral_0_4: "number_add 0 4 = 4"
  by (simp add: number_add_def roundNumber_def zero_enat_def numeral_eq_enat)

lemma number_add_numeral_0_10: "number_add 0 10 = 10"
  by (simp add: number_add_def roundNumber_def zero_enat_def numeral_eq_enat)

section \<open>Evaluating the model on the sample inputs\<close>

lemma dealChunk_sample_frame:
  "dealChunk sample_frame s =
     s\<lparr>expectedLength := number_add (expectedLength s) 4,
       audioChunks := audioChunks s @ [[1, 2, 3, 4]]\<rparr>"
  by (simp add: dealChunk_def sample_frame_def ascii_def CRLF_def TextDecoder_decode_def
        utf8_lead_def utf8_init_def strip_bom_def utf16_units_def js_def
        contentLengthAt_def canonicalize_def isDigit_def parseInt_def digitsValue_def
        roundNumber_def separator_def numeral_eq_enat)

lemma dealChunk_short_frame:
  "dealChunk short_frame s =
     s\<lparr>expectedLength := number_add (expectedLength s) 10, audioChunks := audioChunks s @ [[1]]\<rparr>"
  by (simp add: dealChunk_def short_frame_def ascii_def CRLF_def TextDecoder_decode_def
        utf8_lead_def utf8_init_def strip_bom_def utf16_units_def js_def
        contentLengthAt_def canonicalize_def isDigit_def parseInt_def digitsValue_def
        roundNumber_def separator_def numeral_eq_enat)

lemma dealChunk_accented_frame:
  "dealChunk accented_frame s = s\<lparr>audioChunks := audioChunks s @ [[0x0A, 1, 2, 3]]\<rparr>"
  by (simp add: dealChunk_def accented_frame_def ascii_def CRLF_def TextDecoder_decode_def
        utf8_lead_def utf8_init_def strip_bom_def utf16_units_def js_def
        contentLengthAt_def canonicalize_def separator_def)

lemma totalLength_samples:
  "totalLength [] = 0"
  "totalLength [[1, 2, 3, 4]] = 4"
  "totalLength [[1]] = 1"
  "totalLength [[0x0A, 1, 2, 3]] = 4"
  "totalLength [[1], [1, 2, 3, 4]] = 5"
  by (simp_all add: totalLength_def number_add_def roundNumber_def zero_enat_def
        numeral_eq_enat one_enat_def)

lemma onMessage_Binary:
  "onMessage P Q (Binary data) s = s\<lparr>rawAudioChunks := rawAudioChunks s @ [data]\<rparr>"
  by (simp add: onMessage_def)

lemma turn_end_marker:
  "\<not> str_includes turn_end_text (js ''Path:audio.metadata'')"
  "str_includes turn_end_text (js ''Path:turn.end'')"
  by (simp_all add: str_includes_def js_def CRLF_def turn_end_text_def)

lemma onMessage_turn_end:
  "onMessage P Q turn_end s = awaitDrain Q (dealRawAudioChunks s)"
  by (simp add: turn_end_def onMessage_turn_end_frame turn_end_marker)

lemma step_turn_end_queued:
  "rawAudioChunks s = d # rest \<Longrightarrow>
   step P Q (OnMessage turn_end) s
     = s\<lparr>rawAudioChunks := rest, draining := draining s @ [d]\<rparr>"
  by (simp add: step_def onMessage_turn_end dealRawAudioChunks_def
        whileLoop_Cons [where d = d and rest = rest] awaitDrain_def)

lemma step_turn_end_idle:
  "rawAudioChunks s = [] \<Longrightarrow> step P Q (OnMessage turn_end) s = afterDrain Q s"
  by (simp add: step_def onMessage_turn_end dealRawAudioChunks_def whileLoop_Nil awaitDrain_def)

lemma step_OnArrayBuffer_last:
  "draining s = [d] \<Longrightarrow> rawAudioChunks s = [] \<Longrightarrow>
   step P Q (OnArrayBuffer 0) s = afterDrain Q ((dealChunk d s)\<lparr>draining := []\<rparr>)"
  by (simp add: step_def onArrayBuffer_def resume_def whileLoop_Nil dealChunk_sel awaitDrain_def)


lemma generate_after_open:
  "outputFormat' (settings options) \<noteq> [] \<Longrightarrow>
   generation P Q requestId options [ConnOpen] evs =
     Running (run P Q evs (generate_start requestId options
       \<lparr>wsUrl = url, wsState = OPEN,
        wsSent = [initialMessage (outputFormat' (settings options))]\<rparr>))"
  by (simp add: generation_def connect_def connect_step_def ws_send_def resolve_def Let_def)

lemma settings_sample_format: "outputFormat' (settings sample_options) \<noteq> []"
  by (simp add: settings_def sample_options_def nullish_def js_def)

lemma generate_start_sel:
  "promise (generate_start r opts k) = Pending"
  "timeout (generate_start r opts k) = True"
  "isAudioComplete (generate_start r opts k) = False"
  "expectedLength (generate_start r opts k) = 0"
  "audioChunks (generate_start r opts k) = []"
  "rawAudioChunks (generate_start r opts k) = []"
  "draining (generate_start r opts k) = []"
  "subtitleChunks (generate_start r opts k) = []"
  "env (generate_start r opts k) = settings opts"
  by (simp_all add: generate_start_def)

lemma sample_start_sel:
  "promise sample_start = Pending"
  "timeout sample_start = True"
  "isAudioComplete sample_start = False"
  "expectedLength sample_start = 0"
  "audioChunks sample_start = []"
  "rawAudioChunks sample_start = []"
  "draining sample_start = []"
  "subtitleChunks sample_start = []"
  "wsState (socket sample_start) = OPEN"
  by (simp_all add: sample_start_def generate_start_def ws_send_def)

lemma bare_frame_no_separator: "indexOf (TextDecoder_decode bare_frame) separator = None"
  by (simp add: bare_frame_def ascii_def TextDecoder_decode_def utf8_lead_def utf8_init_def
        strip_bom_def utf16_units_def separator_def js_def CRLF_def)

lemma malformed_metadata_text_eval:
  "str_includes malformed_metadata_text (js ''Path:audio.metadata'')"
  "sample_JSON_parse (trim (split malformed_metadata_text (js ''Path:audio.metadata'') ! 1)) = Inl ()"
  by (simp_all add: malformed_metadata_text_def str_includes_def js_def CRLF_def split_def
        trim_def isWhiteSpace_def sample_JSON_parse_def)

lemma run_sample_frame_turn_end:
  "run sample_JSON_parse sample_parseSubtitle
     [OnMessage (Binary sample_frame), OnMessage turn_end, OnArrayBuffer 0] sample_start
   = sample_start\<lparr>rawAudioChunks := [], expectedLength := 4, audioChunks := [[1, 2, 3, 4]],
       isAudioComplete := True, timeout := False,
       promise := Fulfilled \<lparr>audio = \<lparr>blobBytes = [1, 2, 3, 4], blobType = ''audio/mp3''\<rparr>,
                             subtitle_result = []\<rparr>,
       socket := ws_close (socket sample_start)\<rparr>"
  by (simp add: step_def [of _ _ "OnMessage (Binary _)"] onMessage_Binary
        step_turn_end_queued [where d = sample_frame and rest = "[]"]
        step_OnArrayBuffer_last [where d = sample_frame]
        dealChunk_sample_frame sample_start_sel afterDrain_def totalLength_samples
        number_add_numeral_0_4 sample_parseSubtitle_def resolve_def Let_def)

section \<open>A completed session is settled\<close>

lemma afterDrain_complete_settled:
  "isAudioComplete s \<longrightarrow> promise s \<noteq> Pending \<Longrightarrow>
   isAudioComplete (afterDrain Q s) \<longrightarrow> promise (afterDrain Q s) \<noteq> Pending"
  by (auto simp: afterDrain_def catch_block_def Let_def reject_not_Pending resolve_not_Pending
        split: sum.split)

lemma awaitDrain_whileLoop_complete_settled:
  "isAudioComplete s \<longrightarrow> promise s \<noteq> Pending \<Longrightarrow>
   isAudioComplete (awaitDrain Q (whileLoop i s))
     \<longrightarrow> promise (awaitDrain Q (whileLoop i s)) \<noteq> Pending"
  by (cases "rawAudioChunks s")
     (auto simp: whileLoop_def awaitDrain_def afterDrain_def catch_block_def Let_def
        reject_not_Pending resolve_not_Pending split: sum.split)

lemma complete_settled_step:
  assumes "isAudioComplete s \<longrightarrow> promise s \<noteq> Pending"
  shows "isAudioComplete (step P Q ev s) \<longrightarrow> promise (step P Q ev s) \<noteq> Pending"
proof (cases ev)
  case (OnMessage m)
  show ?thesis
  proof (cases m)
    case (Binary d)
    with OnMessage assms show ?thesis by (simp add: step_def onMessage_def)
  next
    case (Text data)
    with OnMessage assms awaitDrain_whileLoop_complete_settled [OF assms, of Q "length (draining s)"]
    show ?thesis
      by (auto simp: step_def onMessage_def catch_block_def dealRawAudioChunks_def
            reject_not_Pending split: list.split sum.split)
  qed
next
  case (OnClose code reason)
  with assms show ?thesis
    by (auto simp: step_def onClose_def Let_def reject_not_Pending)
next
  case (OnError e)
  with assms show ?thesis
    by (auto simp: step_def onError_def reject_not_Pending)
next
  case OnTimeout
  with assms show ?thesis
    by (auto simp: step_def onTimeout_def reject_not_Pending)
next
  case (OnArrayBuffer i)
  have "isAudioComplete (dealChunk (draining s ! i) s) \<longrightarrow> promise (dealChunk (draining s ! i) s) \<noteq> Pending"
    using assms by (simp add: dealChunk_sel promise_dealChunk)
  from awaitDrain_whileLoop_complete_settled [OF this, of Q i] OnArrayBuffer assms
  show ?thesis
    by (simp add: step_def onArrayBuffer_def resume_def)
qed

lemma complete_settled_run:
  "isAudioComplete s \<longrightarrow> promise s \<noteq> Pending \<Longrightarrow>
   isAudioComplete (run P Q evs s) \<longrightarrow> promise (run P Q evs s) \<noteq> Pending"
proof (induction evs arbitrary: s)
  case Nil
  then show ?case by simp
next
  case (Cons ev evs)
  from Cons.IH [OF complete_settled_step [OF Cons.prems]] show ?case by simp
qed

section \<open>The validation after a drain\<close>

lemma generate_promise_after_open:
  "outputFormat' (settings options) \<noteq> [] \<Longrightarrow>
   generate P Q requestId options [ConnOpen] evs =
     promise (run P Q evs (generate_start requestId options
       \<lparr>wsUrl = url, wsState = OPEN,
        wsSent = [initialMessage (outputFormat' (settings options))]\<rparr>))"
  by (simp add: generate_def generate_after_open)

lemma promise_afterDrain:
  "promise s = Pending \<Longrightarrow>
   promise (afterDrain Q s) =
     (if 0 < expectedLength s \<and> totalLength (audioChunks s) < expectedLength s
      then Rejected (IncompleteAudio (totalLength (audioChunks s)) (expectedLength s))
      else case Q (subtitleChunks s) (subtitle' (env s)) of
             Inl e \<Rightarrow> Rejected (Thrown e)
           | Inr cues \<Rightarrow>
               Fulfilled \<lparr>audio = \<lparr>blobBytes = concat (audioChunks s), blobType = ''audio/mp3''\<rparr>,
                          subtitle_result = cues\<rparr>)"
  by (simp add: afterDrain_def catch_block_def Let_def reject_Pending resolve_Pending
        split: sum.split)

lemma dealChunks_sel:
  "promise (dealChunks cs s) = promise s"
  "subtitleChunks (dealChunks cs s) = subtitleChunks s"
  "env (dealChunks cs s) = env s"
  "rawAudioChunks (dealChunks cs s) = rawAudioChunks s"
  by (simp_all add: dealChunks_eq)

lemma promise_prompt_drain:
  assumes "promise s = Pending"
    and "\<not> str_includes data (js ''Path:audio.metadata'')"
    and "str_includes data (js ''Path:turn.end'')"
  shows "promise (run P Q (OnMessage (Text data) #
            replicate (length (rawAudioChunks s)) (OnArrayBuffer (length (draining s)))) s) =
     (if 0 < expectedLength (dealChunks (rawAudioChunks s) s)
         \<and> totalLength (audioChunks (dealChunks (rawAudioChunks s) s))
             < expectedLength (dealChunks (rawAudioChunks s) s)
      then Rejected (IncompleteAudio (totalLength (audioChunks (dealChunks (rawAudioChunks s) s)))
                                     (expectedLength (dealChunks (rawAudioChunks s) s)))
      else case Q (subtitleChunks s) (subtitle' (env s)) of
             Inl e \<Rightarrow> Rejected (Thrown e)
           | Inr cues \<Rightarrow>
               Fulfilled \<lparr>audio = \<lparr>blobBytes = concat (audioChunks (dealChunks (rawAudioChunks s) s)),
                                   blobType = ''audio/mp3''\<rparr>,
                          subtitle_result = cues\<rparr>)"
proof -
  have "promise ((dealChunks (rawAudioChunks s) s)\<lparr>rawAudioChunks := []\<rparr>) = Pending"
    using assms(1) by (simp add: dealChunks_sel)
  from promise_afterDrain [OF this, of Q] show ?thesis
    by (simp add: run_turn_end_drain [OF assms(2,3)] dealChunks_sel del: run.simps
          split: sum.split)
qed


section \<open>Single settlement\<close>

text \<open>
  Claim C1. The promise that \<open>generate\<close> returns is settled at most once: once it is
  fulfilled or rejected, no further event of the connecting socket and no further frame,
  close event, error event, timer expiry or completed read of the session changes it. In
  particular a close or error event after a successful termination frame leaves the
  fulfilled result as it is.
\<close>

theorem generate_settles_once:
  fixes JSON_parse :: "jsstring \<Rightarrow> 'x + 'm"
  assumes "generate JSON_parse parseSubtitle requestId options cevs evs \<noteq> Pending"
  shows "generate JSON_parse parseSubtitle requestId options (cevs @ cevs') (evs @ evs')
         = generate JSON_parse parseSubtitle requestId options cevs evs"
proof (cases "connect (Some (outputFormat' (settings options))) :: 'x error + 'x Connect")
  case (Inl e)
  then show ?thesis by (simp add: generate_def generation_def)
next
  case (Inr c)
  from assms Inr have settled: "connPromise (connect_run cevs c) \<noteq> Pending"
    by (auto simp: generate_def generation_def split: promise.splits)
  then have same: "connPromise (connect_run (cevs @ cevs') c) = connPromise (connect_run cevs c)"
    by (simp add: connect_run_append connPromise_run_settled)
  show ?thesis
  proof (cases "connPromise (connect_run cevs c)")
    case Pending
    with settled show ?thesis by simp
  next
    case (Rejected e)
    with Inr same show ?thesis by (simp add: generate_def generation_def)
  next
    case (Fulfilled sock)
    with assms Inr
    have "promise (run JSON_parse parseSubtitle evs (generate_start requestId options sock))
          \<noteq> Pending"
      by (simp add: generate_def generation_def)
    then have "promise (run JSON_parse parseSubtitle (evs @ evs')
                 (generate_start requestId options sock))
               = promise (run JSON_parse parseSubtitle evs
                   (generate_start requestId options sock))"
      by (simp add: run_append promise_run_settled)
    with Inr same Fulfilled show ?thesis by (simp add: generate_def generation_def)
  qed
qed

theorem generate_settles_once_witness:
  "generate sample_JSON_parse sample_parseSubtitle (js ''id'') sample_options [ConnOpen]
     [OnMessage (Binary sample_frame), OnMessage turn_end, OnArrayBuffer 0] \<noteq> Pending
   \<and> generate sample_JSON_parse sample_parseSubtitle (js ''id'') sample_options
       ([ConnOpen] @ [ConnTimeout])
       ([OnMessage (Binary sample_frame), OnMessage turn_end, OnArrayBuffer 0]
         @ [OnClose 1006 [], OnError (), OnTimeout, OnMessage turn_end, OnArrayBuffer 0])
     = Fulfilled \<lparr>audio = \<lparr>blobBytes = [1, 2, 3, 4], blobType = ''audio/mp3''\<rparr>,
                  subtitle_result = []\<rparr>"
proof -
  have run: "generate sample_JSON_parse sample_parseSubtitle (js ''id'') sample_options
       [ConnOpen] [OnMessage (Binary sample_frame), OnMessage turn_end, OnArrayBuffer 0]
     = Fulfilled \<lparr>audio = \<lparr>blobBytes = [1, 2, 3, 4], blobType = ''audio/mp3''\<rparr>,
                  subtitle_result = []\<rparr>"
    by (simp add: generate_promise_after_open settings_sample_format
          step_def [of _ _ "OnMessage (Binary _)"] onMessage_Binary
          step_turn_end_queued [where d = sample_frame and rest = "[]"]
          step_OnArrayBuffer_last [where d = sample_frame]
          dealChunk_sample_frame generate_start_sel afterDrain_def totalLength_samples
          number_add_numeral_0_4 sample_parseSubtitle_def resolve_def Let_def)
  then have "generate sample_JSON_parse sample_parseSubtitle (js ''id'') sample_options
       [ConnOpen] [OnMessage (Binary sample_frame), OnMessage turn_end, OnArrayBuffer 0] \<noteq> Pending"
    by simp
  from this generate_settles_once [OF this] run show ?thesis
    by simp
qed

section \<open>Reassembly\<close>

text \<open>
  Claim C2 on the sample session: one binary frame whose header holds a two-byte UTF-8
  character, then the termination frame, then the read of the frame. The bytes after the
  separator are 1, 2, 3; the audio of the fulfilled result starts one byte earlier, with
  the last byte of the separator, because the separator's index in the decoded text is
  one less than its offset in the bytes.
\<close>

theorem header_offset_counted_in_code_units:
  "payload_section accented_frame = [1, 2, 3]
   \<and> generate sample_JSON_parse sample_parseSubtitle (js ''id'') sample_options [ConnOpen]
       [OnMessage (Binary accented_frame), OnMessage turn_end, OnArrayBuffer 0]
     = Fulfilled \<lparr>audio = \<lparr>blobBytes = [0x0A, 1, 2, 3], blobType = ''audio/mp3''\<rparr>,
                  subtitle_result = []\<rparr>"
proof -
  have "payload_section accented_frame = [1, 2, 3]"
    by (simp add: payload_section_def separatorBytes_def accented_frame_def ascii_def CRLF_def)
  moreover have "generate sample_JSON_parse sample_parseSubtitle (js ''id'') sample_options
       [ConnOpen] [OnMessage (Binary accented_frame), OnMessage turn_end, OnArrayBuffer 0]
     = Fulfilled \<lparr>audio = \<lparr>blobBytes = [0x0A, 1, 2, 3], blobType = ''audio/mp3''\<rparr>,
                  subtitle_result = []\<rparr>"
    by (simp add: generate_promise_after_open settings_sample_format
          step_def [of _ _ "OnMessage (Binary _)"] onMessage_Binary
          step_turn_end_queued [where d = accented_frame and rest = "[]"]
          step_OnArrayBuffer_last [where d = accented_frame]
          dealChunk_accented_frame generate_start_sel afterDrain_def totalLength_samples
          sample_parseSubtitle_def resolve_def Let_def)
  ultimately show ?thesis by simp
qed

section \<open>Timer and channel after a settlement\<close>

text \<open>
  Claim C4 on the sample session: a frame that declares ten bytes and carries one,
  followed by the termination frame and the read of the frame. The promise is rejected
  with \<open>IncompleteAudio 1 10\<close>, and afterwards the thirty-second timer is still armed and
  the socket is still open.
\<close>

theorem incomplete_audio_leaves_timer_armed:
  "promise (run sample_JSON_parse sample_parseSubtitle
      [OnMessage (Binary short_frame), OnMessage turn_end, OnArrayBuffer 0] sample_start)
     = Rejected (IncompleteAudio 1 10)
   \<and> timeout (run sample_JSON_parse sample_parseSubtitle
      [OnMessage (Binary short_frame), OnMessage turn_end, OnArrayBuffer 0] sample_start) = True
   \<and> wsState (socket (run sample_JSON_parse sample_parseSubtitle
      [OnMessage (Binary short_frame), OnMessage turn_end, OnArrayBuffer 0] sample_start)) = OPEN"
  by (simp add: step_def [of _ _ "OnMessage (Binary _)"] onMessage_Binary
        step_turn_end_queued [where d = short_frame and rest = "[]"]
        step_OnArrayBuffer_last [where d = short_frame]
        dealChunk_short_frame sample_start_sel afterDrain_def totalLength_samples
        number_add_numeral_0_10 reject_def Let_def)

section \<open>A frame that arrives during the drain\<close>



section \<open>Length validation\<close>



section \<open>The message listener on a metadata frame\<close>

lemma split_from_nonempty: "split_from sep k cur s \<noteq> []"
  by (induction s arbitrary: k cur) simp_all

lemma split_from_two:
  "indexOf s sep \<noteq> None \<Longrightarrow> sep \<noteq> [] \<Longrightarrow> \<exists>a piece rest. split_from sep 0 cur s = a # piece # rest"
proof (induction s arbitrary: cur)
  case Nil
  then show ?case by simp
next
  case (Cons c cs)
  show ?case
  proof (cases "prefix sep (c # cs)")
    case True
    obtain piece rest where "split_from sep (length sep - 1) [] cs = piece # rest"
      using split_from_nonempty [of sep "length sep - 1" "[]" cs] by (cases "split_from sep (length sep - 1) [] cs") auto
    with True show ?thesis by simp
  next
    case False
    with Cons.prems have "indexOf cs sep \<noteq> None" by auto
    from Cons.IH [OF this Cons.prems(2), of "c # cur"] False show ?thesis by simp
  qed
qed

lemma split_includes:
  "str_includes s sep \<Longrightarrow> sep \<noteq> [] \<Longrightarrow> \<exists>a piece rest. split s sep = a # piece # rest"
  by (simp add: str_includes_def split_def split_from_two)

lemma metadata_marker_nonempty: "js ''Path:audio.metadata'' \<noteq> []"
  by (simp add: js_def)

lemma onMessage_metadata:
  assumes "str_includes data (js ''Path:audio.metadata'')"
  shows "onMessage P Q (Text data) s =
     (case P (trim (split data (js ''Path:audio.metadata'') ! 1)) of
        Inl e \<Rightarrow> catch_block (Thrown e) s
      | Inr json \<Rightarrow> s\<lparr>subtitleChunks := subtitleChunks s @ [json]\<rparr>)"
proof -
  from split_includes [OF assms metadata_marker_nonempty]
  obtain a piece rest where "split data (js ''Path:audio.metadata'') = a # piece # rest"
    by blast
  with assms show ?thesis
    by (simp add: onMessage_def)
qed

section \<open>Frames without the separator in the queue\<close>

lemma map_filter_audioData_filter:
  "List.map_filter audioData (filter has_separator q) = List.map_filter audioData q"
  by (induction q) (auto simp: has_separator_def audioData_def List.map_filter_simps split: option.split)

lemma foldl_addDeclared_filter:
  "foldl addDeclared e (filter has_separator q) = foldl addDeclared e q"
  by (induction q arbitrary: e) (auto simp: has_separator_def addDeclared_def split: option.split)

lemma dealChunks_queue:
  assumes "filter has_separator q = filter has_separator q'"
  shows "(dealChunks q (s\<lparr>rawAudioChunks := q\<rparr>))\<lparr>rawAudioChunks := []\<rparr>
         = (dealChunks q' s)\<lparr>rawAudioChunks := []\<rparr>"
proof -
  have "List.map_filter audioData q = List.map_filter audioData q'"
    using assms map_filter_audioData_filter by metis
  moreover have "foldl addDeclared (expectedLength s) q = foldl addDeclared (expectedLength s) q'"
    using assms foldl_addDeclared_filter by metis
  ultimately show ?thesis
    by (simp add: dealChunks_eq)
qed

lemma prompt_step_queue:
  assumes "filter has_separator q = filter has_separator (rawAudioChunks s)"
    and "draining s = []"
  shows "\<exists>q'. prompt_step P Q ev (s\<lparr>rawAudioChunks := q\<rparr>) = (prompt_step P Q ev s)\<lparr>rawAudioChunks := q'\<rparr>
              \<and> filter has_separator q' = filter has_separator (rawAudioChunks (prompt_step P Q ev s))"
proof (cases "\<forall>data. ev = OnMessage (Text data) \<longrightarrow>
           str_includes data (js ''Path:audio.metadata'') \<or> \<not> str_includes data (js ''Path:turn.end'')")
  case False
  then obtain data where ev: "ev = OnMessage (Text data)"
    and m: "\<not> str_includes data (js ''Path:audio.metadata'')" "str_includes data (js ''Path:turn.end'')"
    by auto
  have d: "draining (s\<lparr>rawAudioChunks := q\<rparr>) = []"
    using assms(2) by simp
  have "prompt_step P Q ev (s\<lparr>rawAudioChunks := q\<rparr>) = prompt_step P Q ev s"
    using dealChunks_queue [OF assms(1), of s]
    by (simp add: ev prompt_step_turn_end [OF m d] prompt_step_turn_end [OF m assms(2)])
  then show ?thesis
    by (intro exI [of _ "rawAudioChunks (prompt_step P Q ev s)"]) simp
next
  case True
  have d: "draining (s\<lparr>rawAudioChunks := q\<rparr>) = []"
    using assms(2) by simp
  have ps: "prompt_step P Q ev (s\<lparr>rawAudioChunks := q\<rparr>) = step P Q ev (s\<lparr>rawAudioChunks := q\<rparr>)"
    "prompt_step P Q ev s = step P Q ev s"
    by (simp_all add: prompt_step_other [OF d True] prompt_step_other [OF assms(2) True])
  show ?thesis
  proof (cases ev)
    case (OnMessage m)
    show ?thesis
    proof (cases m)
      case (Binary b)
      with OnMessage assms show ?thesis
        unfolding ps by (intro exI [of _ "q @ [b]"]) (simp add: step_def onMessage_def)
    next
      case (Text data)
      with True OnMessage
      have "str_includes data (js ''Path:audio.metadata'') \<or> \<not> str_includes data (js ''Path:turn.end'')"
        by simp
      with OnMessage Text assms show ?thesis
        unfolding ps
        by (intro exI [of _ q])
           (auto simp: step_def onMessage_def catch_block_def split: list.split sum.split)
    qed
  next
    case (OnClose code reason)
    with assms show ?thesis
      unfolding ps by (intro exI [of _ q]) (simp add: step_def onClose_def Let_def)
  next
    case (OnError e)
    with assms show ?thesis
      unfolding ps by (intro exI [of _ q]) (simp add: step_def onError_def)
  next
    case OnTimeout
    with assms show ?thesis
      unfolding ps by (intro exI [of _ q]) (simp add: step_def onTimeout_def)
  next
    case (OnArrayBuffer i)
    with assms show ?thesis
      unfolding ps by (intro exI [of _ q]) (simp add: step_def onArrayBuffer_def)
  qed
qed

lemma draining_prompt_run: "draining s = [] \<Longrightarrow> draining (prompt_run P Q evs s) = []"
  by (induction evs arbitrary: s) (simp_all add: draining_prompt_step)

lemma prompt_run_append:
  "prompt_run P Q (evs @ evs') s = prompt_run P Q evs' (prompt_run P Q evs s)"
  by (induction evs arbitrary: s) simp_all

lemma prompt_run_queue:
  assumes "filter has_separator q = filter has_separator (rawAudioChunks s)"
    and "draining s = []"
  shows "\<exists>q'. prompt_run P Q evs (s\<lparr>rawAudioChunks := q\<rparr>) = (prompt_run P Q evs s)\<lparr>rawAudioChunks := q'\<rparr>"
  using assms
proof (induction evs arbitrary: s q)
  case Nil
  then show ?case by auto
next
  case (Cons ev evs)
  from prompt_step_queue [OF Cons.prems, of P Q ev] obtain q'
    where st: "prompt_step P Q ev (s\<lparr>rawAudioChunks := q\<rparr>) = (prompt_step P Q ev s)\<lparr>rawAudioChunks := q'\<rparr>"
      and fl: "filter has_separator q' = filter has_separator (rawAudioChunks (prompt_step P Q ev s))"
    by blast
  from Cons.IH [OF fl draining_prompt_step [OF Cons.prems(2)]] st show ?case by simp
qed

lemma prompt_step_Binary:
  "draining s = [] \<Longrightarrow>
   prompt_step P Q (OnMessage (Binary bytes)) s = s\<lparr>rawAudioChunks := rawAudioChunks s @ [bytes]\<rparr>"
  by (simp add: prompt_step_other step_def onMessage_def)

lemma prompt_run_sample_frame_turn_end:
  "prompt_run sample_JSON_parse sample_parseSubtitle
     ([OnMessage (Binary sample_frame)] @ [OnMessage turn_end]) sample_start
   = sample_start\<lparr>rawAudioChunks := [], expectedLength := 4, audioChunks := [[1, 2, 3, 4]],
       isAudioComplete := True, timeout := False,
       promise := Fulfilled \<lparr>audio = \<lparr>blobBytes = [1, 2, 3, 4], blobType = ''audio/mp3''\<rparr>,
                             subtitle_result = []\<rparr>,
       socket := ws_close (socket sample_start)\<rparr>"
  by (simp add: prompt_step_Binary turn_end_def prompt_step_turn_end turn_end_marker
        dealChunks_def dealChunk_sample_frame sample_start_sel afterDrain_def totalLength_samples
        number_add_numeral_0_4 sample_parseSubtitle_def resolve_def Let_def)

section \<open>Frames without the separator\<close>

text \<open>
  Claim C5. A binary frame whose decoded text does not contain the separator is dropped
  by the loop body without any effect: the call that was reading it goes on to the test
  of the loop with the session as it was. A session that receives such a frame at any
  point, its reads completing before the next event, ends with the same audio chunks,
  the same expected length and the same promise as the session that never received it.
\<close>

theorem missing_separator_discarded:
  assumes "indexOf (TextDecoder_decode bytes) separator = None"
  shows "dealChunk bytes s = s
       \<and> (i < length (draining s) \<and> draining s ! i = bytes \<longrightarrow> resume i s = whileLoop i s)
       \<and> (draining s = [] \<longrightarrow>
            audioChunks (prompt_run P Q (before @ OnMessage (Binary bytes) # after) s)
              = audioChunks (prompt_run P Q (before @ after) s)
          \<and> expectedLength (prompt_run P Q (before @ OnMessage (Binary bytes) # after) s)
              = expectedLength (prompt_run P Q (before @ after) s)
          \<and> promise (prompt_run P Q (before @ OnMessage (Binary bytes) # after) s)
              = promise (prompt_run P Q (before @ after) s))"
proof -
  have drop: "dealChunk bytes s = s" for s :: "('a, 'b, 'c) Session"
    using assms by (simp add: dealChunk_def)
  have resumed: "i < length (draining s) \<and> draining s ! i = bytes \<longrightarrow> resume i s = whileLoop i s"
    by (simp add: resume_def drop)
  have runs: "audioChunks (prompt_run P Q (before @ OnMessage (Binary bytes) # after) s)
              = audioChunks (prompt_run P Q (before @ after) s)
          \<and> expectedLength (prompt_run P Q (before @ OnMessage (Binary bytes) # after) s)
              = expectedLength (prompt_run P Q (before @ after) s)
          \<and> promise (prompt_run P Q (before @ OnMessage (Binary bytes) # after) s)
              = promise (prompt_run P Q (before @ after) s)"
    if idle: "draining s = []"
  proof -
    define t where "t = prompt_run P Q before s"
    have dt: "draining t = []"
      unfolding t_def by (rule draining_prompt_run [OF idle])
    have "\<not> has_separator bytes"
      using assms by (simp add: has_separator_def separatorIndex_def)
    then have "filter has_separator (rawAudioChunks t @ [bytes]) = filter has_separator (rawAudioChunks t)"
      by simp
    from prompt_run_queue [OF this dt, of P Q after] obtain q'
      where "prompt_run P Q after (t\<lparr>rawAudioChunks := rawAudioChunks t @ [bytes]\<rparr>)
             = (prompt_run P Q after t)\<lparr>rawAudioChunks := q'\<rparr>"
      by blast
    then have "prompt_run P Q (before @ OnMessage (Binary bytes) # after) s
               = (prompt_run P Q (before @ after) s)\<lparr>rawAudioChunks := q'\<rparr>"
      using dt by (simp add: prompt_run_append t_def [symmetric] prompt_step_Binary)
    then show ?thesis by simp
  qed
  from drop resumed runs show ?thesis by blast
qed

theorem missing_separator_discarded_witness:
  "indexOf (TextDecoder_decode bare_frame) separator = None
   \<and> dealChunk bare_frame sample_start = sample_start
   \<and> resume 0 (sample_start\<lparr>draining := [bare_frame]\<rparr>)
       = whileLoop 0 (sample_start\<lparr>draining := [bare_frame]\<rparr>)
   \<and> draining sample_start = []
   \<and> audioChunks (prompt_run sample_JSON_parse sample_parseSubtitle
        ([OnMessage (Binary sample_frame)] @ OnMessage (Binary bare_frame) # [OnMessage turn_end])
        sample_start) = [[1, 2, 3, 4]]
   \<and> expectedLength (prompt_run sample_JSON_parse sample_parseSubtitle
        ([OnMessage (Binary sample_frame)] @ OnMessage (Binary bare_frame) # [OnMessage turn_end])
        sample_start) = 4
   \<and> promise (prompt_run sample_JSON_parse sample_parseSubtitle
        ([OnMessage (Binary sample_frame)] @ OnMessage (Binary bare_frame) # [OnMessage turn_end])
        sample_start)
       = Fulfilled \<lparr>audio = \<lparr>blobBytes = [1, 2, 3, 4], blobType = ''audio/mp3''\<rparr>,
                    subtitle_result = []\<rparr>"
proof -
  note T1 = missing_separator_discarded [OF bare_frame_no_separator,
      where i = 0 and s = sample_start and P = sample_JSON_parse and Q = sample_parseSubtitle
        and before = "[OnMessage (Binary sample_frame)]" and after = "[OnMessage turn_end]"]
  note T2 = missing_separator_discarded [OF bare_frame_no_separator,
      where i = 0 and s = "sample_start\<lparr>draining := [bare_frame]\<rparr>"
        and P = sample_JSON_parse and Q = sample_parseSubtitle and before = "[]" and after = "[]"]
  from T2 have r: "resume 0 (sample_start\<lparr>draining := [bare_frame]\<rparr>)
       = whileLoop 0 (sample_start\<lparr>draining := [bare_frame]\<rparr>)"
    by simp
  from T1 have "dealChunk bare_frame sample_start = sample_start
   \<and> audioChunks (prompt_run sample_JSON_parse sample_parseSubtitle
        ([OnMessage (Binary sample_frame)] @ OnMessage (Binary bare_frame) # [OnMessage turn_end])
        sample_start) = [[1, 2, 3, 4]]
   \<and> expectedLength (prompt_run sample_JSON_parse sample_parseSubtitle
        ([OnMessage (Binary sample_frame)] @ OnMessage (Binary bare_frame) # [OnMessage turn_end])
        sample_start) = 4
   \<and> promise (prompt_run sample_JSON_parse sample_parseSubtitle
        ([OnMessage (Binary sample_frame)] @ OnMessage (Binary bare_frame) # [OnMessage turn_end])
        sample_start)
       = Fulfilled \<lparr>audio = \<lparr>blobBytes = [1, 2, 3, 4], blobType = ''audio/mp3''\<rparr>,
                    subtitle_result = []\<rparr>"
    by (simp only: prompt_run_sample_frame_turn_end sample_start_sel) simp
  with r bare_frame_no_separator sample_start_sel(7) show ?thesis
    by (simp only: simp_thms)
qed

section \<open>Malformed metadata\<close>

text \<open>
  Claim C7. When a text frame with the metadata marker reaches a session whose promise is
  pending and \<open>JSON.parse\<close> throws on the trimmed text after the marker, the promise is
  rejected with the exception thrown, and whatever events follow, it stays rejected with
  that exception: nothing of the session is recovered.
\<close>

theorem malformed_metadata_fatal:
  assumes "promise s = Pending"
    and "str_includes data (js ''Path:audio.metadata'')"
    and "JSON_parse (trim (split data (js ''Path:audio.metadata'') ! 1)) = Inl e"
  shows "promise (step JSON_parse parseSubtitle (OnMessage (Text data)) s) = Rejected (Thrown e)
       \<and> promise (run JSON_parse parseSubtitle (OnMessage (Text data) # later) s)
           = Rejected (Thrown e)"
proof -
  have st: "promise (step JSON_parse parseSubtitle (OnMessage (Text data)) s) = Rejected (Thrown e)"
    using assms by (simp add: step_def onMessage_metadata catch_block_def reject_Pending)
  then have "promise (run JSON_parse parseSubtitle later
                (step JSON_parse parseSubtitle (OnMessage (Text data)) s)) = Rejected (Thrown e)"
    by (simp add: promise_run_settled)
  with st show ?thesis by simp
qed

theorem malformed_metadata_fatal_witness:
  "promise sample_start = Pending
   \<and> str_includes malformed_metadata_text (js ''Path:audio.metadata'')
   \<and> sample_JSON_parse (trim (split malformed_metadata_text (js ''Path:audio.metadata'') ! 1))
       = Inl ()
   \<and> promise (step sample_JSON_parse sample_parseSubtitle
        (OnMessage (Text malformed_metadata_text)) sample_start) = Rejected (Thrown ())
   \<and> promise (run sample_JSON_parse sample_parseSubtitle
        (OnMessage (Text malformed_metadata_text)
          # [OnMessage (Binary sample_frame), OnMessage turn_end, OnArrayBuffer 0]) sample_start)
       = Rejected (Thrown ())"
  using malformed_metadata_fatal [of sample_start malformed_metadata_text sample_JSON_parse "()"
      sample_parseSubtitle "[OnMessage (Binary sample_frame), OnMessage turn_end, OnArrayBuffer 0]"]
  by (simp only: sample_start_sel(1) malformed_metadata_text_eval)

section \<open>The close event\<close>

text \<open>
  Claim C8, as stated, fails: a close event that follows an error event finds a session
  that has not completed, and the promise stays rejected with the error event, not with
  the unexpected close.
\<close>

theorem close_after_error_counterexample:
  "promise (run sample_JSON_parse sample_parseSubtitle [OnError ()] sample_start)
     = Rejected (ErrorEvent ())
   \<and> \<not> isAudioComplete (run sample_JSON_parse sample_parseSubtitle [OnError ()] sample_start)
   \<and> promise (run sample_JSON_parse sample_parseSubtitle [OnError (), OnClose 1006 []] sample_start)
     = Rejected (ErrorEvent ())
   \<and> promise (run sample_JSON_parse sample_parseSubtitle [OnError (), OnClose 1006 []] sample_start)
     \<noteq> Rejected (ClosedUnexpectedly 1006 [])"
  by (simp add: step_def onError_def onClose_def sample_start_sel reject_def)

text \<open>
  Claim C8, amended. In every session started by \<open>generate\<close>, a close event that arrives
  while the promise is pending rejects it with \<open>ClosedUnexpectedly code reason\<close>; a close
  event that arrives after any settlement, success or failure, leaves the promise as it
  is. Either way the timer is cancelled. A close event during the drain, after the
  termination frame and before the last read, finds the promise pending.
\<close>

theorem close_event_settlement:
  "promise (run P Q (evs @ [OnClose code reason]) (generate_start requestId options sock))
     = (if promise (run P Q evs (generate_start requestId options sock)) = Pending
        then Rejected (ClosedUnexpectedly code reason)
        else promise (run P Q evs (generate_start requestId options sock)))
   \<and> timeout (run P Q (evs @ [OnClose code reason]) (generate_start requestId options sock))
       = False"
proof -
  let ?s = "run P Q evs (generate_start requestId options sock)"
  have inv: "isAudioComplete ?s \<longrightarrow> promise ?s \<noteq> Pending"
    by (rule complete_settled_run) (simp add: generate_start_sel)
  show ?thesis
  proof (cases "promise ?s = Pending")
    case True
    with inv have "\<not> isAudioComplete ?s" by blast
    with True show ?thesis
      by (simp add: run_append step_def onClose_def reject_Pending)
  next
    case False
    then show ?thesis
      by (simp add: run_append step_def onClose_def reject_settled Let_def)
  qed
qed

theorem close_event_settlement_witness:
  "promise (run sample_JSON_parse sample_parseSubtitle
      ([OnMessage (Binary sample_frame), OnMessage turn_end] @ [OnClose 1000 []])
      (generate_start (js ''id'') sample_options
        \<lparr>wsUrl = url, wsState = OPEN, wsSent = []\<rparr>))
     = Rejected (ClosedUnexpectedly 1000 [])"
  using close_event_settlement [of sample_JSON_parse sample_parseSubtitle
      "[OnMessage (Binary sample_frame), OnMessage turn_end]" 1000 "[]" "js ''id''" sample_options
      "\<lparr>wsUrl = url, wsState = OPEN, wsSent = []\<rparr>"]
  by (simp add: step_def [of _ _ "OnMessage (Binary _)"] onMessage_Binary
        step_turn_end_queued [where d = sample_frame and rest = "[]"] generate_start_sel)

section \<open>The pattern finds the first occurrence\<close>

lemma lower_sub: "(0x61::jschar) \<le> c \<Longrightarrow> c \<le> 0x7A \<Longrightarrow> unat (c - 0x20) = unat c - 32"
  by (subst unat_sub) (simp_all add: word_le_nat_alt)

lemma upper_add: "(p::jschar) \<le> 0x5A \<Longrightarrow> unat (p + 0x20) = unat p + 32"
  by (subst unat_add_lem [THEN iffD1]) (simp_all add: word_le_nat_alt)

lemma canonicalize_ci_eq: "canonicalize c = canonicalize p \<longleftrightarrow> ci_eq c p"
proof -
  have le: "\<And>a b :: jschar. a \<le> b \<longleftrightarrow> unat a \<le> unat b" by (simp add: word_le_nat_alt)
  show ?thesis
    unfolding canonicalize_def ci_eq_def
    by (auto simp: word_unat_eq_iff lower_sub upper_add le)
qed

lemma map_canonicalize_ci_eq:
  "map canonicalize a = map canonicalize b \<longleftrightarrow> list_all2 ci_eq a b"
proof -
  have "map canonicalize a = map canonicalize b
        \<longleftrightarrow> list_all2 (\<lambda>x y. canonicalize x = canonicalize y) a b"
    by (simp add: list.rel_map list.rel_eq [symmetric])
  then show ?thesis by (simp add: canonicalize_ci_eq [abs_def])
qed

lemma key_length: "length (js ''Content-Length: '') = 16"
  by (simp add: js_def)

lemma contentLengthAt_Some:
  "contentLengthAt s = Some digits \<longleftrightarrow>
     (\<exists>key rest. s = key @ digits @ rest
        \<and> list_all2 ci_eq key (js ''Content-Length: '')
        \<and> digits \<noteq> [] \<and> list_all isDigit digits
        \<and> (rest = [] \<or> \<not> isDigit (hd rest)))"
proof
  assume at: "contentLengthAt s = Some digits"
  then have key: "list_all2 ci_eq (take 16 s) (js ''Content-Length: '')"
    and ds: "digits = takeWhile isDigit (drop 16 s)" and ne: "digits \<noteq> []"
    by (auto simp: contentLengthAt_def map_canonicalize_ci_eq split: if_splits)
  have "s = take 16 s @ digits @ dropWhile isDigit (drop 16 s)"
    by (simp add: ds)
  moreover have "list_all isDigit digits"
    by (auto simp: ds list_all_iff dest: set_takeWhileD)
  moreover have "dropWhile isDigit (drop 16 s) = [] \<or> \<not> isDigit (hd (dropWhile isDigit (drop 16 s)))"
    using hd_dropWhile [of isDigit "drop 16 s"] by blast
  ultimately show "\<exists>key rest. s = key @ digits @ rest
        \<and> list_all2 ci_eq key (js ''Content-Length: '')
        \<and> digits \<noteq> [] \<and> list_all isDigit digits
        \<and> (rest = [] \<or> \<not> isDigit (hd rest))"
    using key ne by blast
next
  assume "\<exists>key rest. s = key @ digits @ rest
        \<and> list_all2 ci_eq key (js ''Content-Length: '')
        \<and> digits \<noteq> [] \<and> list_all isDigit digits
        \<and> (rest = [] \<or> \<not> isDigit (hd rest))"
  then obtain key rest where s: "s = key @ digits @ rest"
    and key: "list_all2 ci_eq key (js ''Content-Length: '')"
    and ne: "digits \<noteq> []" and ds: "list_all isDigit digits"
    and rest: "rest = [] \<or> \<not> isDigit (hd rest)"
    by blast
  from key have len: "length key = 16"
    by (simp add: list_all2_lengthD key_length)
  have tk: "take 16 s = key" and dr: "drop 16 s = digits @ rest"
    by (simp_all add: s len)
  have "takeWhile isDigit rest = []"
    using rest by (cases rest) auto
  with ds have "takeWhile isDigit (digits @ rest) = digits"
    by (simp add: list_all_iff)
  with key ne show "contentLengthAt s = Some digits"
    by (simp add: contentLengthAt_def tk dr map_canonicalize_ci_eq)
qed

lemma contentLengthAt_occurrence:
  "content_length_occurrence header j digits \<longleftrightarrow> contentLengthAt (drop j header) = Some digits"
  by (simp add: content_length_occurrence_def contentLengthAt_Some)

lemma contentLengthAt_Nil: "contentLengthAt [] = None"
  by (simp add: contentLengthAt_def js_def)

lemma contentLengthExec_first:
  "contentLengthAt (drop j h) = Some digits \<Longrightarrow>
   (\<forall>j'<j. contentLengthAt (drop j' h) = None) \<Longrightarrow>
   contentLengthExec h = Some digits"
proof (induction h arbitrary: j)
  case Nil
  then show ?case by (simp add: contentLengthAt_Nil)
next
  case (Cons c cs)
  show ?case
  proof (cases j)
    case 0
    with Cons.prems show ?thesis by simp
  next
    case (Suc k)
    with Cons.prems have here: "contentLengthAt (c # cs) = None"
      by (metis drop0 zero_less_Suc)
    have "contentLengthAt (drop k cs) = Some digits"
      using Cons.prems(1) Suc by simp
    moreover have "\<forall>j'<k. contentLengthAt (drop j' cs) = None"
    proof (intro allI impI)
      fix j' assume "j' < k"
      then have "Suc j' < j" using Suc by simp
      with Cons.prems(2) have "contentLengthAt (drop (Suc j') (c # cs)) = None" by blast
      then show "contentLengthAt (drop j' cs) = None" by simp
    qed
    ultimately have "contentLengthExec cs = Some digits"
      by (rule Cons.IH)
    with here show ?thesis by simp
  qed
qed

lemma contentLengthExec_none:
  "(\<forall>j. contentLengthAt (drop j h) = None) \<Longrightarrow> contentLengthExec h = None"
proof (induction h)
  case Nil
  show ?case by simp
next
  case (Cons c cs)
  from Cons.prems have here: "contentLengthAt (c # cs) = None"
    by (metis drop0)
  have "\<forall>j. contentLengthAt (drop j cs) = None"
  proof
    fix j
    from Cons.prems have "contentLengthAt (drop (Suc j) (c # cs)) = None" by blast
    then show "contentLengthAt (drop j cs) = None" by simp
  qed
  then have "contentLengthExec cs = None" by (rule Cons.IH)
  with here show ?case by simp
qed

lemma digitsValue_snoc: "digitsValue (ds @ [d]) = 10 * digitsValue ds + (unat d - 48)"
  by (simp add: digitsValue_def)

lemma decimal_snoc: "decimal (ds @ [d]) = 10 * decimal ds + (unat d - 48)"
proof -
  have "(\<Sum>i<length ds. (unat ((ds @ [d]) ! i) - 48) * 10 ^ (length ds - i))
        = (\<Sum>i<length ds. 10 * ((unat (ds ! i) - 48) * 10 ^ (length ds - Suc i)))"
  proof (rule sum.cong)
    fix i assume "i \<in> {..<length ds}"
    then have i: "i < length ds" by simp
    then have "length ds - i = Suc (length ds - Suc i)" by simp
    with i show "(unat ((ds @ [d]) ! i) - 48) * 10 ^ (length ds - i)
                 = 10 * ((unat (ds ! i) - 48) * 10 ^ (length ds - Suc i))"
      by (simp add: nth_append)
  qed simp
  then show ?thesis
    by (simp add: decimal_def sum_distrib_left)
qed

lemma digitsValue_decimal: "digitsValue digits = decimal digits"
proof (induction digits rule: rev_induct)
  case Nil
  show ?case by (simp add: digitsValue_def decimal_def)
next
  case (snoc d ds)
  then show ?case by (simp add: digitsValue_snoc decimal_snoc)
qed

lemma parseInt_decimal: "parseInt digits = roundNumber (decimal digits)"
  by (simp add: parseInt_def digitsValue_decimal)

lemma expectedLength_dealChunk:
  "indexOf (TextDecoder_decode bytes) separator = Some index \<Longrightarrow>
   expectedLength (dealChunk bytes s) =
     (case contentLengthExec (take index (TextDecoder_decode bytes)) of
        None \<Rightarrow> expectedLength s
      | Some digits \<Rightarrow> number_add (expectedLength s) (parseInt digits))"
  by (simp add: dealChunk_def Let_def split: option.split)

lemma number_add_exact:
  "x + y < 2 ^ 53 \<Longrightarrow> number_add (enat x) (roundNumber y) = enat (x + y)"
  by (simp add: roundNumber_small number_add_small)

lemma contentLengthAt_short: "length s < 17 \<Longrightarrow> contentLengthAt s = None"
proof (rule ccontr)
  assume short: "length s < 17" and "contentLengthAt s \<noteq> None"
  then obtain digits where "contentLengthAt s = Some digits" by blast
  then obtain key rest where s: "s = key @ digits @ rest"
    and key: "list_all2 ci_eq key (js ''Content-Length: '')" and ne: "digits \<noteq> []"
    by (auto simp: contentLengthAt_Some)
  from key have "length key = 16"
    by (simp add: list_all2_lengthD key_length)
  with s ne have "17 \<le> length s"
    by (cases digits) simp_all
  with short show False by simp
qed

lemma decode_mixed_case_frame:
  "TextDecoder_decode mixed_case_frame =
     js ''content-LENGTH: '' @ js ''12'' @ js (CRLF @ ''X-Id:7'' @ CRLF) @ separator @ [1, 2, 3]"
  by (simp add: mixed_case_frame_def ascii_def CRLF_def TextDecoder_decode_def
        utf8_lead_def utf8_init_def strip_bom_def utf16_units_def js_def separator_def)

lemma index_mixed_case_frame:
  "indexOf (TextDecoder_decode mixed_case_frame) separator = Some 28"
  by (simp add: decode_mixed_case_frame CRLF_def js_def separator_def)

lemma header_mixed_case_frame:
  "take 28 (TextDecoder_decode mixed_case_frame)
     = js ''content-LENGTH: '' @ js ''12'' @ js (CRLF @ ''X-Id:7'' @ CRLF)"
  by (simp add: decode_mixed_case_frame CRLF_def js_def)

lemma occurrence_mixed_case_frame:
  "content_length_occurrence (take 28 (TextDecoder_decode mixed_case_frame)) 0 (js ''12'')"
  unfolding content_length_occurrence_def header_mixed_case_frame
  by (intro exI [of _ "js ''content-LENGTH: ''"] exI [of _ "js (CRLF @ ''X-Id:7'' @ CRLF)"])
     (simp add: js_def CRLF_def ci_eq_def isDigit_def)

lemma decimal_12: "decimal (js ''12'') = 12"
  by (simp add: digitsValue_decimal [symmetric] digitsValue_def js_def)

lemma index_plain_frame:
  "indexOf (TextDecoder_decode plain_frame) separator = Some 8"
  by (simp add: plain_frame_def ascii_def CRLF_def TextDecoder_decode_def
        utf8_lead_def utf8_init_def strip_bom_def utf16_units_def js_def separator_def)

lemma header_plain_frame:
  "take 8 (TextDecoder_decode plain_frame) = js (''X-Id:7'' @ CRLF)"
  by (simp add: plain_frame_def ascii_def CRLF_def TextDecoder_decode_def
        utf8_lead_def utf8_init_def strip_bom_def utf16_units_def js_def separator_def)

lemma no_occurrence_plain_frame:
  "\<forall>j digits. \<not> content_length_occurrence (take 8 (TextDecoder_decode plain_frame)) j digits"
proof (intro allI)
  fix j digits
  have "length (drop j (js (''X-Id:7'' @ CRLF))) < 17"
    by (simp add: js_def CRLF_def)
  then have "contentLengthAt (drop j (js (''X-Id:7'' @ CRLF))) = None"
    by (rule contentLengthAt_short)
  then show "\<not> content_length_occurrence (take 8 (TextDecoder_decode plain_frame)) j digits"
    by (simp add: contentLengthAt_occurrence header_plain_frame)
qed

section \<open>The sample headers\<close>

lemma decode_nospace_frame:
  "TextDecoder_decode nospace_frame
     = js (''Content-Length:5'' @ CRLF) @ separator @ [1, 2, 3, 4, 5]"
  by (simp add: nospace_frame_def ascii_def CRLF_def TextDecoder_decode_def
        utf8_lead_def utf8_init_def strip_bom_def utf16_units_def js_def separator_def)

lemma separatorIndex_nospace_frame: "separatorIndex nospace_frame = Some 18"
  by (simp add: separatorIndex_def decode_nospace_frame CRLF_def js_def separator_def)

lemma headerText_nospace_frame: "headerText nospace_frame = js (''Content-Length:5'' @ CRLF)"
  by (simp add: headerText_def separatorIndex_nospace_frame)
     (simp add: decode_nospace_frame CRLF_def js_def)

lemma spec_nospace_frame: "spec_content_length (headerText nospace_frame) = Some 5"
  by (simp add: headerText_nospace_frame spec_content_length_def header_lines_def split_def
        content_length_line_def field_key_def field_value_def trim_def isWhiteSpace_def
        ci_eq_def isDigit_def js_def CRLF_def digitsValue_decimal [symmetric] digitsValue_def)

lemma code_nospace_frame: "expectedLength (dealChunk nospace_frame sample_start) = 0"
  by (simp add: dealChunk_def decode_nospace_frame CRLF_def js_def separator_def
        contentLengthAt_def canonicalize_def isDigit_def sample_start_sel)

lemma decode_prefixed_frame:
  "TextDecoder_decode prefixed_frame
     = js (''X-Content-Length: 7'' @ CRLF) @ separator @ [1]"
  by (simp add: prefixed_frame_def ascii_def CRLF_def TextDecoder_decode_def
        utf8_lead_def utf8_init_def strip_bom_def utf16_units_def js_def separator_def)

lemma separatorIndex_prefixed_frame: "separatorIndex prefixed_frame = Some 21"
  by (simp add: separatorIndex_def decode_prefixed_frame CRLF_def js_def separator_def)

lemma headerText_prefixed_frame: "headerText prefixed_frame = js (''X-Content-Length: 7'' @ CRLF)"
  by (simp add: headerText_def separatorIndex_prefixed_frame)
     (simp add: decode_prefixed_frame CRLF_def js_def)

lemma spec_prefixed_frame: "spec_content_length (headerText prefixed_frame) = None"
  by (simp add: headerText_prefixed_frame spec_content_length_def header_lines_def split_def
        content_length_line_def field_key_def field_value_def trim_def isWhiteSpace_def
        ci_eq_def isDigit_def js_def CRLF_def)

lemma code_prefixed_frame: "expectedLength (dealChunk prefixed_frame sample_start) = 7"
  by (simp add: dealChunk_def decode_prefixed_frame CRLF_def js_def separator_def
        contentLengthAt_def canonicalize_def isDigit_def sample_start_sel parseInt_def
        digitsValue_def number_add_def roundNumber_def zero_enat_def numeral_eq_enat)

lemma decode_huge_frame:
  "TextDecoder_decode huge_frame
     = js (''Content-Length: 9007199254740993'' @ CRLF) @ separator @ [1]"
  by (simp add: huge_frame_def ascii_def CRLF_def TextDecoder_decode_def
        utf8_lead_def utf8_init_def strip_bom_def utf16_units_def js_def separator_def)

lemma separatorIndex_huge_frame: "separatorIndex huge_frame = Some 34"
  by (simp add: separatorIndex_def decode_huge_frame CRLF_def js_def separator_def)

lemma headerText_huge_frame:
  "headerText huge_frame = js (''Content-Length: 9007199254740993'' @ CRLF)"
  by (simp add: headerText_def separatorIndex_huge_frame)
     (simp add: decode_huge_frame CRLF_def js_def)

lemma digitsValue_huge: "digitsValue (js ''9007199254740993'') = 9007199254740993"
  by (simp add: digitsValue_def js_def)

lemma spec_huge_frame: "spec_content_length (headerText huge_frame) = Some 9007199254740993"
  by (simp add: headerText_huge_frame spec_content_length_def header_lines_def split_def
        content_length_line_def field_key_def field_value_def trim_def isWhiteSpace_def
        ci_eq_def isDigit_def js_def CRLF_def digitsValue_decimal [symmetric] digitsValue_def)

lemma roundNumber_huge: "roundNumber 9007199254740993 = enat 9007199254740992"
  by (simp add: roundNumber_def bitLength.simps Let_def)

lemma roundNumber_2_53: "roundNumber 9007199254740992 = enat 9007199254740992"
  by (simp add: roundNumber_def bitLength.simps Let_def)

lemma contentLengthExec_huge:
  "contentLengthExec (js (''Content-Length: 9007199254740993'' @ CRLF))
     = Some (js ''9007199254740993'')"
  by (simp add: js_def CRLF_def contentLengthAt_def canonicalize_def isDigit_def)

lemma code_huge_frame:
  "expectedLength (dealChunk huge_frame sample_start) = enat 9007199254740992"
proof -
  have idx: "indexOf (TextDecoder_decode huge_frame) separator = Some 34"
    using separatorIndex_huge_frame by (simp add: separatorIndex_def)
  have tk: "take 34 (TextDecoder_decode huge_frame)
      = js (''Content-Length: 9007199254740993'' @ CRLF)"
    by (simp add: decode_huge_frame CRLF_def js_def)
  from expectedLength_dealChunk [OF idx, of sample_start]
  have "expectedLength (dealChunk huge_frame sample_start)
      = number_add 0 (roundNumber 9007199254740993)"
    by (simp only: tk contentLengthExec_huge option.case parseInt_def digitsValue_huge
          sample_start_sel)
  then show ?thesis
    by (simp add: roundNumber_huge number_add_def zero_enat_def roundNumber_2_53)
qed

section \<open>Content-Length\<close>

text \<open>
  Claim C6, as stated, fails on three headers. \<open>Content-Length:5\<close>, a field of the header
  block with the value 5, is not found by the pattern, which wants a space after the
  colon: nothing is added. \<open>X-Content-Length: 7\<close> is a field with another key, and the
  pattern finds its last characters: 7 is added. \<open>Content-Length: 9007199254740993\<close> has
  the value \<open>2 ^ 53 + 1\<close>, which is not a Number: \<open>2 ^ 53\<close> is added.
\<close>

theorem content_length_field_counterexample:
  "separatorIndex nospace_frame = Some 18
   \<and> spec_content_length (headerText nospace_frame) = Some 5
   \<and> expectedLength (dealChunk nospace_frame sample_start) = 0
   \<and> separatorIndex prefixed_frame = Some 21
   \<and> spec_content_length (headerText prefixed_frame) = None
   \<and> expectedLength (dealChunk prefixed_frame sample_start) = 7
   \<and> separatorIndex huge_frame = Some 34
   \<and> spec_content_length (headerText huge_frame) = Some 9007199254740993
   \<and> expectedLength (dealChunk huge_frame sample_start) = enat 9007199254740992"
  by (simp only: separatorIndex_nospace_frame spec_nospace_frame code_nospace_frame
        separatorIndex_prefixed_frame spec_prefixed_frame code_prefixed_frame
        separatorIndex_huge_frame spec_huge_frame code_huge_frame simp_thms)

text \<open>
  Claim C6, amended. For a binary frame whose decoded text contains the separator, the
  header text is the decoded text before the separator. If the characters
  \<open>Content-Length: \<close>, letters in any case, followed by a decimal digit occur in the
  header text, the loop body adds to \<open>expectedLength\<close>, as Numbers are added, the Number
  nearest to the integer that the digit run after the leftmost occurrence denotes; this is
  the sum of the integers when that sum is below \<open>2 ^ 53\<close>. If there is no occurrence,
  \<open>expectedLength\<close> is unchanged.
\<close>

theorem content_length_accumulated:
  assumes "indexOf (TextDecoder_decode bytes) separator = Some index"
  shows "(\<forall>j digits.
            content_length_occurrence (take index (TextDecoder_decode bytes)) j digits
            \<and> (\<forall>j'<j. \<forall>d. \<not> content_length_occurrence (take index (TextDecoder_decode bytes)) j' d)
            \<longrightarrow> expectedLength (dealChunk bytes s)
                  = number_add (expectedLength s) (roundNumber (decimal digits))
                \<and> (expectedLength s = enat e \<and> e + decimal digits < 2 ^ 53
                     \<longrightarrow> expectedLength (dealChunk bytes s) = enat (e + decimal digits)))
       \<and> ((\<forall>j digits. \<not> content_length_occurrence (take index (TextDecoder_decode bytes)) j digits)
            \<longrightarrow> expectedLength (dealChunk bytes s) = expectedLength s)"
proof -
  let ?h = "take index (TextDecoder_decode bytes)"
  have added: "expectedLength (dealChunk bytes s)
      = number_add (expectedLength s) (roundNumber (decimal digits))"
    if f: "content_length_occurrence ?h j digits
           \<and> (\<forall>j'<j. \<forall>d. \<not> content_length_occurrence ?h j' d)" for j digits
  proof -
    from f have "contentLengthAt (drop j ?h) = Some digits"
      by (simp add: contentLengthAt_occurrence)
    moreover from f have "\<forall>j'<j. contentLengthAt (drop j' ?h) = None"
      by (metis contentLengthAt_occurrence not_Some_eq)
    ultimately have "contentLengthExec ?h = Some digits"
      by (rule contentLengthExec_first)
    with assms show ?thesis
      by (simp add: expectedLength_dealChunk parseInt_decimal)
  qed
  have exact: "expectedLength (dealChunk bytes s) = enat (e + decimal digits)"
    if "content_length_occurrence ?h j digits
        \<and> (\<forall>j'<j. \<forall>d. \<not> content_length_occurrence ?h j' d)"
      and "expectedLength s = enat e \<and> e + decimal digits < 2 ^ 53" for j digits
    using added [OF that(1)] that(2) by (simp add: number_add_exact)
  have none: "expectedLength (dealChunk bytes s) = expectedLength s"
    if "\<forall>j digits. \<not> content_length_occurrence ?h j digits"
  proof -
    from that have "\<forall>j. contentLengthAt (drop j ?h) = None"
      by (metis contentLengthAt_occurrence not_Some_eq)
    then have "contentLengthExec ?h = None"
      by (rule contentLengthExec_none)
    with assms show ?thesis
      by (simp add: expectedLength_dealChunk)
  qed
  from added exact none show ?thesis by blast
qed

theorem content_length_accumulated_witness:
  "indexOf (TextDecoder_decode mixed_case_frame) separator = Some 28
   \<and> content_length_occurrence (take 28 (TextDecoder_decode mixed_case_frame)) 0 (js ''12'')
   \<and> expectedLength sample_start = enat 0
   \<and> 0 + decimal (js ''12'') < (2 :: nat) ^ 53
   \<and> expectedLength (dealChunk mixed_case_frame sample_start) = enat 12
   \<and> indexOf (TextDecoder_decode plain_frame) separator = Some 8
   \<and> expectedLength (dealChunk plain_frame sample_start) = 0"
proof -
  have start: "expectedLength sample_start = enat 0"
    by (simp add: sample_start_sel zero_enat_def)
  have small: "0 + decimal (js ''12'') < (2 :: nat) ^ 53"
    by (simp add: decimal_12)
  from content_length_accumulated [OF index_mixed_case_frame, of sample_start 0]
  have "content_length_occurrence (take 28 (TextDecoder_decode mixed_case_frame)) 0 (js ''12'')
        \<and> (\<forall>j'<0. \<forall>d. \<not> content_length_occurrence (take 28 (TextDecoder_decode mixed_case_frame)) j' d)
        \<longrightarrow> (expectedLength sample_start = enat 0 \<and> 0 + decimal (js ''12'') < 2 ^ 53
               \<longrightarrow> expectedLength (dealChunk mixed_case_frame sample_start)
                     = enat (0 + decimal (js ''12'')))"
    by blast
  with occurrence_mixed_case_frame start small
  have mixed: "expectedLength (dealChunk mixed_case_frame sample_start) = enat 12"
    by (simp add: decimal_12)
  from content_length_accumulated [OF index_plain_frame, of sample_start 0] no_occurrence_plain_frame
  have plain: "expectedLength (dealChunk plain_frame sample_start) = 0"
    by (simp add: sample_start_sel)
  from mixed plain index_mixed_case_frame occurrence_mixed_case_frame index_plain_frame start small
  show ?thesis by (simp only: simp_thms)
qed

section \<open>What generate sends and passes on\<close>

lemma generation_empty_format:
  "outputFormat options = Some [] \<Longrightarrow>
   generation P Q requestId options cevs evs = Threw OutputFormatRequired"
  by (simp add: generation_def settings_def nullish_def connect_def)

lemma settings_format_nonempty:
  "outputFormat options \<noteq> Some [] \<Longrightarrow> outputFormat' (settings options) \<noteq> []"
  by (cases "outputFormat options") (simp_all add: settings_def nullish_def js_def)

lemma generate_sent_after_open:
  "outputFormat options \<noteq> Some [] \<Longrightarrow>
   generate_sent P Q requestId options [ConnOpen] []
     = [initialMessage (outputFormat' (settings options)),
        requestString requestId (language' (settings options)) (voice' (settings options))
          (rate' (settings options)) (pitch' (settings options)) (volume' (settings options))
          (text options)]"
  by (simp add: generate_sent_def generate_after_open settings_format_nonempty generate_start_def
        ws_send_def)

lemma generate_turn_end_only:
  assumes "outputFormat options \<noteq> Some []"
    and "\<not> str_includes data (js ''Path:audio.metadata'')"
    and "str_includes data (js ''Path:turn.end'')"
  shows "generate P Q requestId options [ConnOpen] [OnMessage (Text data)]
     = (case Q [] (subtitle' (settings options)) of
          Inr cues \<Rightarrow> Fulfilled \<lparr>audio = \<lparr>blobBytes = [], blobType = ''audio/mp3''\<rparr>,
                                 subtitle_result = cues\<rparr>
        | Inl e \<Rightarrow> Rejected (Thrown e))"
  using assms
  by (simp add: generate_promise_after_open settings_format_nonempty step_def
        onMessage_turn_end_frame dealRawAudioChunks_def whileLoop_Nil awaitDrain_def
        generate_start_sel promise_afterDrain split: sum.split)

lemma settings_defaults:
  "voice' (settings options)
     = (case voice options of None \<Rightarrow> js ''en-US-AvaNeural'' | Some v \<Rightarrow> v)"
  "language' (settings options)
     = (case language options of None \<Rightarrow> js ''en-US'' | Some v \<Rightarrow> v)"
  "outputFormat' (settings options)
     = (case outputFormat options of None \<Rightarrow> js ''audio-24khz-96kbitrate-mono-mp3'' | Some v \<Rightarrow> v)"
  "rate' (settings options)
     = (case rate options of None \<Rightarrow> js ''default'' | Some v \<Rightarrow> v)"
  "pitch' (settings options)
     = (case pitch options of None \<Rightarrow> js ''default'' | Some v \<Rightarrow> v)"
  "volume' (settings options)
     = (case volume options of None \<Rightarrow> js ''default'' | Some v \<Rightarrow> v)"
  "subtitle' (settings options)
     = (case subtitle options of
          None \<Rightarrow> [''splitBy'' \<mapsto> JString (js ''sentence''), ''count'' \<mapsto> JNumber 1]
        | Some given \<Rightarrow>
            (\<lambda>k. case given k of
                   None \<Rightarrow> [''splitBy'' \<mapsto> JString (js ''sentence''), ''count'' \<mapsto> JNumber 1] k
                 | Some v \<Rightarrow> Some v))"
  by (simp_all add: settings_def nullish_def spread_def map_add_def del: One_nat_def
        split: option.split)

section \<open>Defaults\<close>

text \<open>
  Claim C10, as stated, fails for the subtitle options: a property of \<open>options.subtitle\<close>
  that is present with the value undefined is passed on as undefined, not replaced by its
  default, while the property that is missing beside it gets its default although
  \<open>options.subtitle\<close> is neither null nor undefined. The sample cue builder returns the
  \<open>splitBy\<close> and \<open>count\<close> it is given.
\<close>

theorem explicit_undefined_counterexample:
  "generate sample_JSON_parse echo_options (js ''id'')
     (sample_options\<lparr>subtitle := Some [''splitBy'' \<mapsto> JUndefined]\<rparr>)
     [ConnOpen] [OnMessage turn_end]
   = Fulfilled \<lparr>audio = \<lparr>blobBytes = [], blobType = ''audio/mp3''\<rparr>,
                subtitle_result = (Some JUndefined, Some (JNumber 1))\<rparr>"
proof -
  have "outputFormat (sample_options\<lparr>subtitle := Some [''splitBy'' \<mapsto> JUndefined]\<rparr>) \<noteq> Some []"
    by (simp add: sample_options_def)
  from generate_turn_end_only [OF this turn_end_marker, of sample_JSON_parse echo_options "js ''id''"]
  show ?thesis
    by (simp add: turn_end_def echo_options_def settings_def spread_def)
qed

text \<open>
  Claim C10, amended. With an explicit empty output format \<open>generate\<close> is rejected with the
  output-format-required error and sends nothing. Otherwise, once the socket is open,
  what it has sent is the configuration message with the output format and the synthesis
  request with the language, voice, rate, pitch and volume, each as given unless it is
  null or undefined, and then the fixed default; and the options that it passes to
  \<open>parseSubtitle\<close>, here on a termination frame that arrives first, are \<open>splitBy: "sentence"\<close>
  and \<open>count: 1\<close> when \<open>options.subtitle\<close> is null or undefined, and otherwise every property
  present in \<open>options.subtitle\<close> with the value it has there, undefined included, and the
  default for a property that is missing.
\<close>

theorem generate_defaults:
  fixes JSON_parse :: "jsstring \<Rightarrow> 'x + 'm"
    and parseSubtitle :: "'m list \<Rightarrow> (string \<rightharpoonup> jsval) \<Rightarrow> 'x + 's"
  shows
  "(outputFormat options = Some [] \<longrightarrow>
      generate JSON_parse parseSubtitle requestId options cevs evs = Rejected OutputFormatRequired
      \<and> generate_sent JSON_parse parseSubtitle requestId options cevs evs = [])
   \<and> (outputFormat options \<noteq> Some [] \<longrightarrow>
      generate_sent JSON_parse parseSubtitle requestId options [ConnOpen] []
        = [initialMessage
             (case outputFormat options of
                None \<Rightarrow> js ''audio-24khz-96kbitrate-mono-mp3'' | Some v \<Rightarrow> v),
           requestString requestId
             (case language options of None \<Rightarrow> js ''en-US'' | Some v \<Rightarrow> v)
             (case voice options of None \<Rightarrow> js ''en-US-AvaNeural'' | Some v \<Rightarrow> v)
             (case rate options of None \<Rightarrow> js ''default'' | Some v \<Rightarrow> v)
             (case pitch options of None \<Rightarrow> js ''default'' | Some v \<Rightarrow> v)
             (case volume options of None \<Rightarrow> js ''default'' | Some v \<Rightarrow> v)
             (text options)]
      \<and> (\<not> str_includes data (js ''Path:audio.metadata'') \<and> str_includes data (js ''Path:turn.end'')
          \<longrightarrow> generate JSON_parse parseSubtitle requestId options [ConnOpen] [OnMessage (Text data)]
              = (case parseSubtitle []
                       (case subtitle options of
                          None \<Rightarrow> [''splitBy'' \<mapsto> JString (js ''sentence''), ''count'' \<mapsto> JNumber 1]
                        | Some given \<Rightarrow>
                            (\<lambda>k. case given k of
                                   None \<Rightarrow> [''splitBy'' \<mapsto> JString (js ''sentence''),
                                             ''count'' \<mapsto> JNumber 1] k
                                 | Some v \<Rightarrow> Some v)) of
                   Inr cues \<Rightarrow> Fulfilled \<lparr>audio = \<lparr>blobBytes = [], blobType = ''audio/mp3''\<rparr>,
                                          subtitle_result = cues\<rparr>
                 | Inl e \<Rightarrow> Rejected (Thrown e))))"
proof (intro conjI impI)
  assume "outputFormat options = Some []"
  then have "generation JSON_parse parseSubtitle requestId options cevs evs
             = Threw OutputFormatRequired"
    by (rule generation_empty_format)
  then show "generate JSON_parse parseSubtitle requestId options cevs evs
             = Rejected OutputFormatRequired"
    and "generate_sent JSON_parse parseSubtitle requestId options cevs evs = []"
    by (simp_all add: generate_def generate_sent_def)
next
  assume "outputFormat options \<noteq> Some []"
  from generate_sent_after_open [OF this, of JSON_parse parseSubtitle requestId]
  show "generate_sent JSON_parse parseSubtitle requestId options [ConnOpen] []
        = [initialMessage
             (case outputFormat options of
                None \<Rightarrow> js ''audio-24khz-96kbitrate-mono-mp3'' | Some v \<Rightarrow> v),
           requestString requestId
             (case language options of None \<Rightarrow> js ''en-US'' | Some v \<Rightarrow> v)
             (case voice options of None \<Rightarrow> js ''en-US-AvaNeural'' | Some v \<Rightarrow> v)
             (case rate options of None \<Rightarrow> js ''default'' | Some v \<Rightarrow> v)
             (case pitch options of None \<Rightarrow> js ''default'' | Some v \<Rightarrow> v)
             (case volume options of None \<Rightarrow> js ''default'' | Some v \<Rightarrow> v)
             (text options)]"
    by (simp only: settings_defaults)
next
  assume f: "outputFormat options \<noteq> Some []"
    and m: "\<not> str_includes data (js ''Path:audio.metadata'') \<and> str_includes data (js ''Path:turn.end'')"
  from m have m1: "\<not> str_includes data (js ''Path:audio.metadata'')"
    and m2: "str_includes data (js ''Path:turn.end'')" by simp_all
  from generate_turn_end_only [OF f m1 m2, of JSON_parse parseSubtitle requestId]
  show "generate JSON_parse parseSubtitle requestId options [ConnOpen] [OnMessage (Text data)]
              = (case parseSubtitle []
                       (case subtitle options of
                          None \<Rightarrow> [''splitBy'' \<mapsto> JString (js ''sentence''), ''count'' \<mapsto> JNumber 1]
                        | Some given \<Rightarrow>
                            (\<lambda>k. case given k of
                                   None \<Rightarrow> [''splitBy'' \<mapsto> JString (js ''sentence''),
                                             ''count'' \<mapsto> JNumber 1] k
                                 | Some v \<Rightarrow> Some v)) of
                   Inr cues \<Rightarrow> Fulfilled \<lparr>audio = \<lparr>blobBytes = [], blobType = ''audio/mp3''\<rparr>,
                                          subtitle_result = cues\<rparr>
                 | Inl e \<Rightarrow> Rejected (Thrown e))"
    by (simp only: settings_defaults)
qed

theorem generate_defaults_witness:
  "outputFormat (sample_options\<lparr>outputFormat := Some []\<rparr>) = Some []
   \<and> generate sample_JSON_parse echo_options (js ''id'')
       (sample_options\<lparr>outputFormat := Some []\<rparr>) [ConnOpen] [OnMessage turn_end]
       = Rejected OutputFormatRequired
   \<and> generate_sent sample_JSON_parse echo_options (js ''id'')
       (sample_options\<lparr>outputFormat := Some []\<rparr>) [ConnOpen] [OnMessage turn_end] = []
   \<and> outputFormat sample_options \<noteq> Some []
   \<and> generate_sent sample_JSON_parse echo_options (js ''id'') sample_options [ConnOpen] []
       = [initialMessage (js ''audio-24khz-96kbitrate-mono-mp3''),
          requestString (js ''id'') (js ''en-US'') (js ''en-US-AvaNeural'') (js ''default'')
            (js ''default'') (js ''default'') (js ''Hi'')]
   \<and> \<not> str_includes turn_end_text (js ''Path:audio.metadata'')
   \<and> str_includes turn_end_text (js ''Path:turn.end'')
   \<and> generate sample_JSON_parse echo_options (js ''id'') sample_options
       [ConnOpen] [OnMessage (Text turn_end_text)]
       = Fulfilled \<lparr>audio = \<lparr>blobBytes = [], blobType = ''audio/mp3''\<rparr>,
                    subtitle_result = (Some (JString (js ''sentence'')), Some (JNumber 1))\<rparr>
   \<and> generate_sent sample_JSON_parse echo_options (js ''id'')
       (sample_options\<lparr>voice := Some (js ''en-GB-SoniaNeural''), rate := Some (js ''+10%''),
          subtitle := Some [''count'' \<mapsto> JNumber 2]\<rparr>) [ConnOpen] []
       = [initialMessage (js ''audio-24khz-96kbitrate-mono-mp3''),
          requestString (js ''id'') (js ''en-US'') (js ''en-GB-SoniaNeural'') (js ''+10%'')
            (js ''default'') (js ''default'') (js ''Hi'')]
   \<and> generate sample_JSON_parse echo_options (js ''id'')
       (sample_options\<lparr>voice := Some (js ''en-GB-SoniaNeural''), rate := Some (js ''+10%''),
          subtitle := Some [''count'' \<mapsto> JNumber 2]\<rparr>)
       [ConnOpen] [OnMessage (Text turn_end_text)]
       = Fulfilled \<lparr>audio = \<lparr>blobBytes = [], blobType = ''audio/mp3''\<rparr>,
                    subtitle_result = (Some (JString (js ''sentence'')), Some (JNumber 2))\<rparr>"
proof -
  let ?P = sample_JSON_parse and ?Q = echo_options
  let ?given = "sample_options\<lparr>voice := Some (js ''en-GB-SoniaNeural''), rate := Some (js ''+10%''),
          subtitle := Some [''count'' \<mapsto> JNumber 2]\<rparr>"
  note T1 = generate_defaults [where options = "sample_options\<lparr>outputFormat := Some []\<rparr>"
      and JSON_parse = ?P and parseSubtitle = ?Q and requestId = "js ''id''"
      and cevs = "[ConnOpen]" and evs = "[OnMessage turn_end]" and data = turn_end_text]
  note T2 = generate_defaults [where options = sample_options
      and JSON_parse = ?P and parseSubtitle = ?Q and requestId = "js ''id''"
      and cevs = "[ConnOpen]" and evs = "[OnMessage turn_end]" and data = turn_end_text]
  note T3 = generate_defaults [where options = ?given
      and JSON_parse = ?P and parseSubtitle = ?Q and requestId = "js ''id''"
      and cevs = "[ConnOpen]" and evs = "[OnMessage turn_end]" and data = turn_end_text]
  from T1 have empty:
    "generate ?P ?Q (js ''id'') (sample_options\<lparr>outputFormat := Some []\<rparr>) [ConnOpen]
       [OnMessage turn_end] = Rejected OutputFormatRequired
     \<and> generate_sent ?P ?Q (js ''id'') (sample_options\<lparr>outputFormat := Some []\<rparr>) [ConnOpen]
       [OnMessage turn_end] = []"
    by simp
  from T2 have absent:
    "generate_sent ?P ?Q (js ''id'') sample_options [ConnOpen] []
       = [initialMessage (js ''audio-24khz-96kbitrate-mono-mp3''),
          requestString (js ''id'') (js ''en-US'') (js ''en-US-AvaNeural'') (js ''default'')
            (js ''default'') (js ''default'') (js ''Hi'')]
     \<and> generate ?P ?Q (js ''id'') sample_options [ConnOpen] [OnMessage (Text turn_end_text)]
       = Fulfilled \<lparr>audio = \<lparr>blobBytes = [], blobType = ''audio/mp3''\<rparr>,
                    subtitle_result = (Some (JString (js ''sentence'')), Some (JNumber 1))\<rparr>"
    by (simp add: sample_options_def turn_end_marker echo_options_def)
  from T3 have given:
    "generate_sent ?P ?Q (js ''id'') ?given [ConnOpen] []
       = [initialMessage (js ''audio-24khz-96kbitrate-mono-mp3''),
          requestString (js ''id'') (js ''en-US'') (js ''en-GB-SoniaNeural'') (js ''+10%'')
            (js ''default'') (js ''default'') (js ''Hi'')]
     \<and> generate ?P ?Q (js ''id'') ?given [ConnOpen] [OnMessage (Text turn_end_text)]
       = Fulfilled \<lparr>audio = \<lparr>blobBytes = [], blobType = ''audio/mp3''\<rparr>,
                    subtitle_result = (Some (JString (js ''sentence'')), Some (JNumber 2))\<rparr>"
    by (simp add: sample_options_def turn_end_marker echo_options_def)
  have o: "outputFormat (sample_options\<lparr>outputFormat := Some []\<rparr>) = Some []"
    "outputFormat sample_options \<noteq> Some []"
    by (simp_all add: sample_options_def)
  from empty absent given o turn_end_marker show ?thesis
    by (simp only: simp_thms)
qed

section \<open>Decoding an ASCII header\<close>

lemma indexOf_Some_iff:
  "indexOf s n = Some i \<longleftrightarrow>
     i \<le> length s \<and> prefix n (drop i s) \<and> (\<forall>j<i. \<not> prefix n (drop j s))"
proof (induction s arbitrary: i)
  case Nil
  show ?case by auto
next
  case (Cons c cs)
  show ?case
  proof (cases "prefix n (c # cs)")
    case True
    then show ?thesis by (cases i) auto
  next
    case False
    show ?thesis
    proof (cases i)
      case 0
      with False show ?thesis by auto
    next
      case (Suc k)
      have "(\<forall>j<Suc k. \<not> prefix n (drop j (c # cs))) \<longleftrightarrow> (\<forall>j<k. \<not> prefix n (drop j cs))"
        using False by (auto simp: less_Suc_eq_0_disj)
      with False Suc Cons.IH [of k] show ?thesis by auto
    qed
  qed
qed

lemma prefix_take_iff: "prefix n xs \<longleftrightarrow> take (length n) xs = n"
  by (metis append_eq_conv_conj prefix_def)

lemma utf8_lead_ascii: "b \<le> 0x7F \<Longrightarrow> utf8_lead b = ([unat b], utf8_init)"
  by (simp add: utf8_lead_def)

lemma utf8_decode_ascii_append:
  "\<forall>b\<in>set xs. b \<le> 0x7F \<Longrightarrow>
   utf8_decode_from utf8_init (xs @ ys) = map unat xs @ utf8_decode_from utf8_init ys"
proof (induction xs)
  case Nil
  show ?case by simp
next
  case (Cons x xs)
  then show ?case by (simp add: utf8_lead_ascii) (simp add: utf8_init_def)
qed

lemma utf16_units_byte: "utf16_units (unat (b :: byte)) = [ucast b]"
proof -
  have "unat b < 2 ^ 8" using unsigned_less [of b, where ?'a = nat] by simp
  then show ?thesis by (simp add: utf16_units_def)
qed

lemma TextDecoder_decode_ascii_append:
  assumes "\<forall>b\<in>set xs. b \<le> 0x7F" and "xs \<noteq> []"
  shows "TextDecoder_decode (xs @ ys)
         = map ucast xs @ concat (map utf16_units (utf8_decode_from utf8_init ys))"
proof -
  from assms obtain x xs' where xs: "xs = x # xs'" and x: "x \<le> 0x7F"
    by (cases xs) auto
  from x have "unat x \<le> 127" by (simp add: word_le_nat_alt)
  then have "unat x \<noteq> 0xFEFF" by simp
  then have "strip_bom (map unat xs @ utf8_decode_from utf8_init ys)
             = map unat xs @ utf8_decode_from utf8_init ys"
    by (simp add: strip_bom_def xs)
  moreover have "concat (map utf16_units (map unat xs)) = map ucast xs"
    by (induction xs) (simp_all add: utf16_units_byte)
  ultimately show ?thesis
    by (simp add: TextDecoder_decode_def utf8_decode_ascii_append [OF assms(1)])
qed

lemma ucast_byte_inj: "map (ucast :: byte \<Rightarrow> jschar) xs = map ucast ys \<Longrightarrow> xs = ys"
proof -
  have "inj (ucast :: byte \<Rightarrow> jschar)"
  proof (rule injI)
    fix a b :: byte
    assume "(ucast a :: jschar) = ucast b"
    then have "unat (ucast a :: jschar) = unat (ucast b :: jschar)" by simp
    then have "unat a = unat b"
      by (simp add: unsigned_ucast_eq take_bit_nat_eq_self unsigned_less [THEN less_trans])
    then show "a = b" by (simp add: word_unat_eq_iff)
  qed
  then show "map (ucast :: byte \<Rightarrow> jschar) xs = map ucast ys \<Longrightarrow> xs = ys"
    by (simp add: inj_map_eq_map)
qed

lemma separator_bytes:
  "separator = map ucast separatorBytes"
  "length separatorBytes = 12"
  "\<forall>b\<in>set separatorBytes. b \<le> 0x7F"
  "separatorBytes \<noteq> []"
  by (simp_all add: separator_def separatorBytes_def js_def ascii_def CRLF_def)

lemma separatorIndex_ascii_header:
  assumes idx: "indexOf bytes separatorBytes = Some i"
    and hdr: "\<forall>b\<in>set (take i bytes). b \<le> 0x7F"
  shows "separatorIndex bytes = Some i"
proof -
  let ?sep = separatorBytes
  from idx have i: "i \<le> length bytes" and at: "prefix ?sep (drop i bytes)"
    and first: "\<forall>j<i. \<not> prefix ?sep (drop j bytes)"
    by (simp_all add: indexOf_Some_iff)
  let ?A = "take i bytes @ ?sep"
  from at obtain rest where rest: "drop i bytes = ?sep @ rest"
    by (auto simp: prefix_def)
  then have bytes: "bytes = ?A @ rest"
    by (metis append_assoc append_take_drop_id)
  have lenA: "length ?A = i + 12"
    using i by (simp add: separator_bytes)
  have asciiA: "\<forall>b\<in>set ?A. b \<le> 0x7F"
    using hdr separator_bytes(3) by auto
  have "?A \<noteq> []" by (simp add: separator_bytes)
  from TextDecoder_decode_ascii_append [OF asciiA this, of rest]
  obtain tail where dec: "TextDecoder_decode bytes = map ucast ?A @ tail"
    using bytes by metis
  have len_sep: "length separator = 12"
    by (simp add: separator_bytes)
  have here: "prefix separator (drop i (TextDecoder_decode bytes))"
    using i by (simp add: dec separator_bytes)
  have before: "\<forall>j<i. \<not> prefix separator (drop j (TextDecoder_decode bytes))"
  proof (intro allI impI notI)
    fix j assume j: "j < i" and p: "prefix separator (drop j (TextDecoder_decode bytes))"
    from p have "take 12 (drop j (TextDecoder_decode bytes)) = separator"
      by (simp add: prefix_take_iff len_sep)
    moreover have "take 12 (drop j (TextDecoder_decode bytes)) = map ucast (take 12 (drop j ?A))"
      using j lenA by (simp add: dec take_map drop_map)
    ultimately have "map (ucast :: byte \<Rightarrow> jschar) (take 12 (drop j ?A)) = map ucast ?sep"
      by (simp add: separator_bytes(1))
    then have "take 12 (drop j ?A) = ?sep"
      by (rule ucast_byte_inj)
    moreover have "take 12 (drop j bytes) = take 12 (drop j ?A)"
      using j lenA by (subst bytes) simp
    ultimately have "prefix ?sep (drop j bytes)"
      by (simp add: prefix_take_iff separator_bytes(2))
    with first j show False by blast
  qed
  have "i \<le> length (TextDecoder_decode bytes)"
    using lenA by (simp add: dec)
  with here before show ?thesis
    by (simp add: separatorIndex_def indexOf_Some_iff)
qed

lemma audioData_ascii_header:
  assumes "ascii_header bytes"
  shows "audioData bytes = Some (payload_section bytes)"
proof -
  from assms obtain i where idx: "indexOf bytes separatorBytes = Some i"
    and hdr: "\<forall>b\<in>set (take i bytes). b \<le> 0x7F"
    by (auto simp: ascii_header_def)
  from separatorIndex_ascii_header [OF idx hdr] idx show ?thesis
    by (simp add: audioData_def payload_section_def separator_bytes)
qed

section \<open>Streaming frames only extend the two lists\<close>

lemma step_streaming_frame:
  assumes "streaming_frame P ev"
  shows "step P Q ev s =
     s\<lparr>rawAudioChunks := rawAudioChunks s @ List.map_filter binary_of [ev],
       subtitleChunks := subtitleChunks s @ List.map_filter (metadata_of P) [ev]\<rparr>"
proof (cases ev)
  case (OnMessage m)
  show ?thesis
  proof (cases m)
    case (Binary bytes)
    with OnMessage show ?thesis
      by (simp add: step_def onMessage_Binary binary_of_def metadata_of_def)
  next
    case (Text data)
    with OnMessage assms have inc: "str_includes data (js ''Path:audio.metadata'')"
      and "\<exists>json. P (trim (split data (js ''Path:audio.metadata'') ! 1)) = Inr json"
      by (auto simp: streaming_frame_def binary_of_def metadata_of_def split: if_splits sum.splits)
    then obtain json where "P (trim (split data (js ''Path:audio.metadata'') ! 1)) = Inr json"
      by blast
    with OnMessage Text inc show ?thesis
      by (simp add: step_def onMessage_metadata binary_of_def metadata_of_def)
  qed
next
  case (OnClose code reason)
  with assms show ?thesis by (simp add: streaming_frame_def binary_of_def metadata_of_def)
next
  case (OnError e)
  with assms show ?thesis by (simp add: streaming_frame_def binary_of_def metadata_of_def)
next
  case OnTimeout
  with assms show ?thesis by (simp add: streaming_frame_def binary_of_def metadata_of_def)
next
  case (OnArrayBuffer i)
  with assms show ?thesis by (simp add: streaming_frame_def binary_of_def metadata_of_def)
qed

lemma run_streaming_frames:
  "list_all (streaming_frame P) evs \<Longrightarrow>
   run P Q evs s =
     s\<lparr>rawAudioChunks := rawAudioChunks s @ List.map_filter binary_of evs,
       subtitleChunks := subtitleChunks s @ List.map_filter (metadata_of P) evs\<rparr>"
proof (induction evs arbitrary: s)
  case Nil
  show ?case by (simp add:)
next
  case (Cons ev evs)
  then have ev: "streaming_frame P ev" and evs: "list_all (streaming_frame P) evs"
    by simp_all
  show ?case
    by (simp add: step_streaming_frame [OF ev] Cons.IH [OF evs] split: option.split)
qed

section \<open>The invariants are kept by every event\<close>

lemma live_afterDrain: "live s \<Longrightarrow> live (afterDrain Q s)"
  by (auto simp: live_def afterDrain_def catch_block_def Let_def reject_not_Pending
        resolve_not_Pending split: sum.split)

lemma live_awaitDrain_whileLoop: "live s \<Longrightarrow> live (awaitDrain Q (whileLoop i s))"
proof (cases "rawAudioChunks s")
  case Nil
  assume "live s"
  then have "live (s\<lparr>draining := take i (draining s) @ drop (Suc i) (draining s)\<rparr>)"
    by (simp add: live_def)
  then show ?thesis
    by (simp add: whileLoop_Nil [OF Nil] awaitDrain_def live_afterDrain)
next
  case (Cons d rest)
  assume "live s"
  then show ?thesis
    by (simp add: whileLoop_Cons [OF Cons] awaitDrain_def live_def)
qed

lemma live_dealChunk: "live s \<Longrightarrow> live (dealChunk bytes s)"
  by (simp add: live_def dealChunk_sel promise_dealChunk)

lemma live_step: "live s \<Longrightarrow> live (step P Q ev s)"
proof (cases ev)
  case (OnMessage m)
  assume l: "live s"
  show ?thesis
  proof (cases m)
    case (Binary d)
    with OnMessage l show ?thesis by (simp add: step_def onMessage_def live_def)
  next
    case (Text data)
    with OnMessage l live_awaitDrain_whileLoop [OF l, of Q "length (draining s)"]
    show ?thesis
      by (auto simp: live_def step_def onMessage_def catch_block_def dealRawAudioChunks_def
            reject_not_Pending split: list.split sum.split)
  qed
next
  case (OnClose code reason)
  assume "live s"
  with OnClose show ?thesis
    by (auto simp: live_def step_def onClose_def Let_def reject_not_Pending)
next
  case (OnError e)
  then show ?thesis
    by (auto simp: live_def step_def onError_def reject_not_Pending)
next
  case OnTimeout
  assume "live s"
  with OnTimeout show ?thesis
    by (auto simp: live_def step_def onTimeout_def reject_not_Pending)
next
  case (OnArrayBuffer i)
  assume "live s"
  with OnArrayBuffer live_awaitDrain_whileLoop [OF live_dealChunk, of s Q i "draining s ! i"]
  show ?thesis
    by (simp add: step_def onArrayBuffer_def resume_def)
qed

lemma live_run: "live s \<Longrightarrow> live (run P Q evs s)"
  by (induction evs arbitrary: s) (simp_all add: live_step)

lemma connect_timer_step:
  "(connPromise c = Pending \<longrightarrow> connTimeout c) \<Longrightarrow>
   (connPromise (connect_step ev c) = Pending \<longrightarrow> connTimeout (connect_step ev c))"
  by (cases ev) (auto simp: connect_step_def Let_def reject_not_Pending resolve_not_Pending)

lemma connect_timer_run:
  "(connPromise c = Pending \<longrightarrow> connTimeout c) \<Longrightarrow>
   (connPromise (connect_run evs c) = Pending \<longrightarrow> connTimeout (connect_run evs c))"
proof (induction evs arbitrary: c)
  case Nil
  then show ?case by simp
next
  case (Cons ev evs)
  from Cons.IH [OF connect_timer_step [OF Cons.prems]] show ?case by simp
qed

lemma tidy_afterDrain: "tidy s \<Longrightarrow> tidy (afterDrain Q s)"
  by (cases "promise s")
     (auto simp: tidy_def afterDrain_def catch_block_def Let_def reject_def resolve_def
        ws_close_def split: sum.split)

lemma tidy_awaitDrain_whileLoop: "tidy s \<Longrightarrow> tidy (awaitDrain Q (whileLoop i s))"
proof (cases "rawAudioChunks s")
  case Nil
  assume "tidy s"
  then have "tidy (s\<lparr>draining := take i (draining s) @ drop (Suc i) (draining s)\<rparr>)"
    by (simp add: tidy_def)
  then show ?thesis
    by (simp add: whileLoop_Nil [OF Nil] awaitDrain_def tidy_afterDrain)
next
  case (Cons d rest)
  assume "tidy s"
  then show ?thesis
    by (simp add: whileLoop_Cons [OF Cons] awaitDrain_def tidy_def)
qed

lemma tidy_dealChunk: "tidy s \<Longrightarrow> tidy (dealChunk bytes s)"
  by (simp add: tidy_def dealChunk_sel promise_dealChunk)

lemma tidy_step: "tidy s \<Longrightarrow> tidy (step P Q ev s)"
proof (cases ev)
  case (OnMessage m)
  assume t: "tidy s"
  show ?thesis
  proof (cases m)
    case (Binary d)
    with OnMessage t show ?thesis by (simp add: step_def onMessage_def tidy_def)
  next
    case (Text data)
    with OnMessage t tidy_awaitDrain_whileLoop [OF t, of Q "length (draining s)"]
    show ?thesis
      by (cases "promise s")
         (auto simp: tidy_def step_def onMessage_def catch_block_def dealRawAudioChunks_def
            reject_def split: list.split sum.split)
  qed
next
  case (OnClose code reason)
  assume "tidy s"
  with OnClose show ?thesis
    by (cases "promise s") (auto simp: tidy_def step_def onClose_def Let_def reject_def)
next
  case (OnError e)
  assume "tidy s"
  with OnError show ?thesis
    by (cases "promise s") (auto simp: tidy_def step_def onError_def reject_def)
next
  case OnTimeout
  assume "tidy s"
  with OnTimeout show ?thesis
    by (cases "promise s") (auto simp: tidy_def step_def onTimeout_def reject_def ws_close_def)
next
  case (OnArrayBuffer i)
  assume "tidy s"
  with OnArrayBuffer tidy_awaitDrain_whileLoop [OF tidy_dealChunk, of s Q i "draining s ! i"]
  show ?thesis
    by (simp add: step_def onArrayBuffer_def resume_def)
qed

lemma tidy_run: "tidy s \<Longrightarrow> tidy (run P Q evs s)"
  by (induction evs arbitrary: s) (simp_all add: tidy_step)


section \<open>Opening the channel\<close>

text \<open>
  Claim C9. \<open>connect\<close> throws the output-format-required error for an absent and for an
  empty output format, before any socket exists. For every non-empty output format it
  creates a connecting socket to the endpoint with nothing sent and a pending promise;
  the open event then sends the configuration message, which is the only message sent
  and embeds the output format as the value of its \<open>outputFormat\<close> property, resolves the
  promise with the open socket and cancels the timer.
\<close>

theorem connect_requires_output_format:
  \<open>connect None = (Inl OutputFormatRequired :: 'x error + 'x Connect)
   \<and> connect (Some []) = (Inl OutputFormatRequired :: 'x error + 'x Connect)
   \<and> (fmt \<noteq> [] \<longrightarrow>
        (\<exists>c :: 'x Connect.
           connect (Some fmt) = Inr c
           \<and> ws c = \<lparr>wsUrl = url, wsState = CONNECTING, wsSent = []\<rparr>
           \<and> connPromise c = Pending
           \<and> ws (connect_step ConnOpen c)
               = \<lparr>wsUrl = url, wsState = OPEN, wsSent = [initialMessage fmt]\<rparr>
           \<and> connPromise (connect_step ConnOpen c)
               = Fulfilled \<lparr>wsUrl = url, wsState = OPEN, wsSent = [initialMessage fmt]\<rparr>
           \<and> connTimeout (connect_step ConnOpen c) = False
           \<and> (\<exists>pre post. initialMessage fmt
                 = pre @ js ''"outputFormat": "'' @ fmt @ js ''"'' @ post)))\<close>
proof -
  have embed: \<open>\<exists>pre post. initialMessage fmt = pre @ js ''"outputFormat": "'' @ fmt @ js ''"'' @ post\<close>
    by (intro exI [of _ \<open>js (LF @ ''  Content-Type:application/json; charset=utf-8'' @ CRLF
         @ ''Path:speech.config'' @ CRLF @ CRLF @ LF @ LF
         @ ''  {'' @ LF
         @ ''    "context": {'' @ LF
         @ ''      "synthesis": {'' @ LF
         @ ''        "audio": {'' @ LF
         @ ''          "metadataoptions": {'' @ LF
         @ ''            "sentenceBoundaryEnabled": "false",'' @ LF
         @ ''            "wordBoundaryEnabled": "true"'' @ LF
         @ ''          },'' @ LF
         @ ''          '')\<close>]
        exI [of _ \<open>js (LF
         @ ''        }'' @ LF
         @ ''      }'' @ LF
         @ ''    }'' @ LF
         @ ''  }'' @ LF)\<close>])
       (simp add: initialMessage_def js_def)
  show ?thesis
    using embed
    by (simp add: connect_def connect_step_def ws_send_def resolve_def Let_def)
qed

theorem connect_requires_output_format_witness:
  \<open>js ''audio-24khz-96kbitrate-mono-mp3'' \<noteq> []
   \<and> (\<exists>c :: unit Connect.
           connect (Some (js ''audio-24khz-96kbitrate-mono-mp3'')) = Inr c
           \<and> ws c = \<lparr>wsUrl = url, wsState = CONNECTING, wsSent = []\<rparr>
           \<and> connPromise c = Pending
           \<and> ws (connect_step ConnOpen c)
               = \<lparr>wsUrl = url, wsState = OPEN,
                  wsSent = [initialMessage (js ''audio-24khz-96kbitrate-mono-mp3'')]\<rparr>
           \<and> connPromise (connect_step ConnOpen c)
               = Fulfilled \<lparr>wsUrl = url, wsState = OPEN,
                            wsSent = [initialMessage (js ''audio-24khz-96kbitrate-mono-mp3'')]\<rparr>
           \<and> connTimeout (connect_step ConnOpen c) = False
           \<and> (\<exists>pre post. initialMessage (js ''audio-24khz-96kbitrate-mono-mp3'')
                 = pre @ js ''"outputFormat": "'' @ js ''audio-24khz-96kbitrate-mono-mp3''
                   @ js ''"'' @ post))\<close>
proof -
  have ne: "js ''audio-24khz-96kbitrate-mono-mp3'' \<noteq> []"
    by (simp add: js_def)
  from connect_requires_output_format [where ?'x = unit, of "js ''audio-24khz-96kbitrate-mono-mp3''"] ne
  show ?thesis by blast
qed

section \<open>Arrival order\<close>

text \<open>
  What the code does on the sessions of the ordering property. After any interleaving of
  binary frames and of metadata frames that parse, a termination frame followed by the
  reads of the queued frames settles the promise from the binary frames in arrival order
  and the parsed metadata in arrival order, each list taken on its own: the result does
  not depend on how the two kinds were interleaved.
\<close>

theorem reassembly_in_arrival_order:
  assumes "list_all (streaming_frame JSON_parse) evs"
    and "\<not> str_includes data (js ''Path:audio.metadata'')"
    and "str_includes data (js ''Path:turn.end'')"
  shows "promise (run JSON_parse parseSubtitle
                   (evs @ OnMessage (Text data) #
                      replicate (length (List.map_filter binary_of evs)) (OnArrayBuffer 0))
                   (generate_start requestId options sock)) =
     (let frames = List.map_filter binary_of evs;
          chunks = List.map_filter audioData frames;
          L = foldl addDeclared 0 frames
      in if 0 < L \<and> totalLength chunks < L
         then Rejected (IncompleteAudio (totalLength chunks) L)
         else case parseSubtitle (List.map_filter (metadata_of JSON_parse) evs)
                     (subtitle' (settings options)) of
                Inl e \<Rightarrow> Rejected (Thrown e)
              | Inr cues \<Rightarrow>
                  Fulfilled \<lparr>audio = \<lparr>blobBytes = concat chunks, blobType = ''audio/mp3''\<rparr>,
                             subtitle_result = cues\<rparr>)"
proof -
  let ?s = "run JSON_parse parseSubtitle evs (generate_start requestId options sock)"
  have s: "?s = (generate_start requestId options sock)
                  \<lparr>rawAudioChunks := List.map_filter binary_of evs,
                    subtitleChunks := List.map_filter (metadata_of JSON_parse) evs\<rparr>"
    by (simp add: run_streaming_frames [OF assms(1)] generate_start_sel)
  have pending: "promise ?s = Pending"
    by (simp add: s generate_start_sel)
  have drained:
    "expectedLength (dealChunks (List.map_filter binary_of evs) ?s)
       = foldl addDeclared 0 (List.map_filter binary_of evs)"
    "audioChunks (dealChunks (List.map_filter binary_of evs) ?s)
       = List.map_filter audioData (List.map_filter binary_of evs)"
    "subtitleChunks ?s = List.map_filter (metadata_of JSON_parse) evs"
    "env ?s = settings options"
    "rawAudioChunks ?s = List.map_filter binary_of evs"
    "draining ?s = []"
    by (simp_all add: s dealChunks_eq generate_start_sel)
  have "run JSON_parse parseSubtitle
          (evs @ OnMessage (Text data) #
             replicate (length (List.map_filter binary_of evs)) (OnArrayBuffer 0))
          (generate_start requestId options sock)
        = run JSON_parse parseSubtitle
            (OnMessage (Text data) #
               replicate (length (rawAudioChunks ?s)) (OnArrayBuffer (length (draining ?s)))) ?s"
    by (simp only: run_append drained list.size)
  with promise_prompt_drain [OF pending assms(2,3), of JSON_parse parseSubtitle]
  show ?thesis
    by (simp only: drained Let_def)
qed

text \<open>
  For frames with an ASCII header the bytes that the loop body keeps are the payload
  section, the bytes after the separator.
\<close>

theorem ascii_headers_payload_sections:
  "list_all ascii_header frames \<Longrightarrow>
   List.map_filter audioData frames = map payload_section frames"
  by (induction frames) (simp_all add: audioData_ascii_header)


section \<open>Deadlines and resources\<close>

text \<open>
  A session started by \<open>generate\<close> whose promise is pending has its timer armed, and the
  expiry of the timer settles it.
\<close>

theorem deadline_settles_session:
  "(promise (run P Q evs (generate_start requestId options sock)) = Pending
      \<longrightarrow> timeout (run P Q evs (generate_start requestId options sock)))
   \<and> promise (run P Q (evs @ [OnTimeout]) (generate_start requestId options sock)) \<noteq> Pending"
proof -
  let ?s = "run P Q evs (generate_start requestId options sock)"
  have "live ?s"
    by (rule live_run) (simp add: live_def generate_start_sel)
  then show ?thesis
    by (auto simp: live_def run_append step_def onTimeout_def reject_not_Pending)
qed

text \<open>
  Once the timer of \<open>connect\<close> and the timer of \<open>generate\<close> have both had their turn,
  the promise of \<open>generate\<close> is settled, whatever else happened.
\<close>

theorem generate_settles_by_deadline:
  fixes JSON_parse :: "jsstring \<Rightarrow> 'x + 'm"
  shows "generate JSON_parse parseSubtitle requestId options
           (cevs @ [ConnTimeout]) (evs @ [OnTimeout]) \<noteq> Pending"
proof (cases "connect (Some (outputFormat' (settings options))) :: 'x error + 'x Connect")
  case (Inl e)
  then show ?thesis by (simp add: generate_def generation_def)
next
  case (Inr c)
  then have "connPromise c = Pending \<longrightarrow> connTimeout c"
    by (auto simp: connect_def split: option.splits if_splits)
  then have armed: "connPromise (connect_run cevs c) = Pending \<longrightarrow> connTimeout (connect_run cevs c)"
    by (rule connect_timer_run)
  have settled: "connPromise (connect_run (cevs @ [ConnTimeout]) c) \<noteq> Pending"
    using armed
    by (auto simp: connect_run_append connect_step_def reject_not_Pending)
  show ?thesis
  proof (cases "connPromise (connect_run (cevs @ [ConnTimeout]) c)")
    case Pending
    with settled show ?thesis by simp
  next
    case (Rejected e)
    with Inr show ?thesis by (simp add: generate_def generation_def)
  next
    case (Fulfilled sock)
    with Inr deadline_settles_session [of JSON_parse parseSubtitle evs requestId options sock]
    show ?thesis by (simp add: generate_def generation_def)
  qed
qed

text \<open>
  In a session started by \<open>generate\<close>, a promise settled in any way but the rejection for
  incomplete audio has its timer cancelled, and a promise that was fulfilled, or rejected
  by the timeout or by an unexpected close, has a socket that is no longer open.
\<close>

theorem settlement_releases_resources:
  "(promise (run P Q evs (generate_start requestId options sock)) = Pending
      \<or> (\<exists>got expected. promise (run P Q evs (generate_start requestId options sock))
            = Rejected (IncompleteAudio got expected))
      \<or> \<not> timeout (run P Q evs (generate_start requestId options sock)))
   \<and> ((\<exists>result. promise (run P Q evs (generate_start requestId options sock)) = Fulfilled result)
        \<or> promise (run P Q evs (generate_start requestId options sock)) = Rejected GenerateTimeout
        \<or> (\<exists>code reason. promise (run P Q evs (generate_start requestId options sock))
              = Rejected (ClosedUnexpectedly code reason))
      \<longrightarrow> wsState (socket (run P Q evs (generate_start requestId options sock))) \<noteq> OPEN)"
proof -
  have "tidy (run P Q evs (generate_start requestId options sock))"
    by (rule tidy_run) (simp add: tidy_def generate_start_sel)
  then show ?thesis
    unfolding tidy_def .
qed


end
